theory Spec2Isabelle
  imports Complex_Main "HOL-Library.Word"
begin

section \<open>The transfer sample: \<open>WriteWithTransactionUsingDml\<close>\<close>

text \<open>
  The sample \<^verbatim>\<open>snippets/samples/update_data_with_transaction.go\<close> is a straight-line
  program over handles of Go's \<^verbatim>\<open>database/sql\<close> package (\<^verbatim>\<open>db\<close>, \<^verbatim>\<open>tx\<close>, \<^verbatim>\<open>row\<close>,
  \<^verbatim>\<open>result\<close>) and a writer \<^verbatim>\<open>w\<close>. None of the code behind these handles is part
  of the sample, so the embedding takes it as a parameter: a record of operations over
  an arbitrary collaborator state \<open>'s\<close>, with results \<open>'r\<close> and errors \<open>'e\<close>
  left abstract. \<^verbatim>\<open>tx.QueryRowContext(...).Scan(&x)\<close> is one operation that yields the
  scanned number or the error of \<^verbatim>\<open>Scan\<close>; \<^verbatim>\<open>result.RowsAffected()\<close> reads a result and
  touches no state; the context argument, which the sample only hands on, is left out.
  Go's \<^verbatim>\<open>int64\<close> is a 64-bit word; \<^verbatim>\<open>>=\<close> on it is the signed order.
\<close>

type_synonym int64 = "64 word"

type_synonym params = "(string \<times> int64) list"

record ('s, 'r, 'e) driver =
  sql_Open :: "string \<Rightarrow> string \<Rightarrow> 's \<Rightarrow> ('e + unit) \<times> 's"
  db_Close :: "'s \<Rightarrow> 's"
  db_BeginTx :: "'s \<Rightarrow> ('e + unit) \<times> 's"
  tx_QueryRow_Scan :: "string \<Rightarrow> params \<Rightarrow> 's \<Rightarrow> ('e + int64) \<times> 's"
  tx_Exec :: "string \<Rightarrow> params \<Rightarrow> 's \<Rightarrow> ('e + 'r) \<times> 's"
  result_RowsAffected :: "'r \<Rightarrow> 'e + int64"
  tx_Rollback :: "'s \<Rightarrow> 's"
  tx_Commit :: "'s \<Rightarrow> 'e option \<times> 's"
  Fprintln :: "string \<Rightarrow> 's \<Rightarrow> 's"

text \<open>
  The error the sample returns is either an error of a collaborator, handed on as it is
  (\<^verbatim>\<open>return err\<close>), or the one error the sample builds itself, with
  \<^verbatim>\<open>fmt.Errorf("unexpected number of rows affected: %v", affected)\<close>.
\<close>

datatype 'e failure = Propagated 'e | UnexpectedRowsAffected int64

text \<open>
  The calls the sample makes are recorded, in program order, with what each returned.
  The calls whose result the sample discards (\<^verbatim>\<open>tx.Rollback()\<close>, the deferred
  \<^verbatim>\<open>db.Close()\<close>, \<^verbatim>\<open>fmt.Fprintln\<close>) are recorded as \<open>Returned\<close>.
\<close>

datatype call =
    COpen string string
  | CClose
  | CBeginTx
  | CQueryRow string params
  | CExec string params
  | CRowsAffected
  | CRollback
  | CCommit
  | CPrintln string

datatype ('r, 'e) outcome = Failed 'e | Returned | ReturnedInt int64 | ReturnedResult 'r

type_synonym ('r, 'e) trace = "(call \<times> ('r, 'e) outcome) list"

definition do_Open ::
  "('s, 'r, 'e) driver \<Rightarrow> string \<Rightarrow> string \<Rightarrow> 's \<times> ('r, 'e) trace \<Rightarrow> ('e + unit) \<times> 's \<times> ('r, 'e) trace" where
  "do_Open d drv name st =
     (case st of (s, lg) \<Rightarrow>
        (case sql_Open d drv name s of
           (Inl e, s') \<Rightarrow> (Inl e, s', lg @ [(COpen drv name, Failed e)])
         | (Inr u, s') \<Rightarrow> (Inr u, s', lg @ [(COpen drv name, Returned)])))"

definition do_Close :: "('s, 'r, 'e) driver \<Rightarrow> 's \<times> ('r, 'e) trace \<Rightarrow> 's \<times> ('r, 'e) trace" where
  "do_Close d st = (case st of (s, lg) \<Rightarrow> (db_Close d s, lg @ [(CClose, Returned)]))"

definition do_BeginTx ::
  "('s, 'r, 'e) driver \<Rightarrow> 's \<times> ('r, 'e) trace \<Rightarrow> ('e + unit) \<times> 's \<times> ('r, 'e) trace" where
  "do_BeginTx d st =
     (case st of (s, lg) \<Rightarrow>
        (case db_BeginTx d s of
           (Inl e, s') \<Rightarrow> (Inl e, s', lg @ [(CBeginTx, Failed e)])
         | (Inr u, s') \<Rightarrow> (Inr u, s', lg @ [(CBeginTx, Returned)])))"

definition do_QueryRow ::
  "('s, 'r, 'e) driver \<Rightarrow> string \<Rightarrow> params \<Rightarrow> 's \<times> ('r, 'e) trace \<Rightarrow> ('e + int64) \<times> 's \<times> ('r, 'e) trace" where
  "do_QueryRow d q ps st =
     (case st of (s, lg) \<Rightarrow>
        (case tx_QueryRow_Scan d q ps s of
           (Inl e, s') \<Rightarrow> (Inl e, s', lg @ [(CQueryRow q ps, Failed e)])
         | (Inr v, s') \<Rightarrow> (Inr v, s', lg @ [(CQueryRow q ps, ReturnedInt v)])))"

definition do_Exec ::
  "('s, 'r, 'e) driver \<Rightarrow> string \<Rightarrow> params \<Rightarrow> 's \<times> ('r, 'e) trace \<Rightarrow> ('e + 'r) \<times> 's \<times> ('r, 'e) trace" where
  "do_Exec d q ps st =
     (case st of (s, lg) \<Rightarrow>
        (case tx_Exec d q ps s of
           (Inl e, s') \<Rightarrow> (Inl e, s', lg @ [(CExec q ps, Failed e)])
         | (Inr r, s') \<Rightarrow> (Inr r, s', lg @ [(CExec q ps, ReturnedResult r)])))"

definition do_RowsAffected ::
  "('s, 'r, 'e) driver \<Rightarrow> 'r \<Rightarrow> 's \<times> ('r, 'e) trace \<Rightarrow> ('e + int64) \<times> 's \<times> ('r, 'e) trace" where
  "do_RowsAffected d r st =
     (case st of (s, lg) \<Rightarrow>
        (case result_RowsAffected d r of
           Inl e \<Rightarrow> (Inl e, s, lg @ [(CRowsAffected, Failed e)])
         | Inr n \<Rightarrow> (Inr n, s, lg @ [(CRowsAffected, ReturnedInt n)])))"

definition do_Rollback :: "('s, 'r, 'e) driver \<Rightarrow> 's \<times> ('r, 'e) trace \<Rightarrow> 's \<times> ('r, 'e) trace" where
  "do_Rollback d st = (case st of (s, lg) \<Rightarrow> (tx_Rollback d s, lg @ [(CRollback, Returned)]))"

definition do_Commit ::
  "('s, 'r, 'e) driver \<Rightarrow> 's \<times> ('r, 'e) trace \<Rightarrow> 'e option \<times> 's \<times> ('r, 'e) trace" where
  "do_Commit d st =
     (case st of (s, lg) \<Rightarrow>
        (case tx_Commit d s of
           (Some e, s') \<Rightarrow> (Some e, s', lg @ [(CCommit, Failed e)])
         | (None, s') \<Rightarrow> (None, s', lg @ [(CCommit, Returned)])))"

definition do_Println :: "('s, 'r, 'e) driver \<Rightarrow> string \<Rightarrow> 's \<times> ('r, 'e) trace \<Rightarrow> 's \<times> ('r, 'e) trace" where
  "do_Println d msg st = (case st of (s, lg) \<Rightarrow> (Fprintln d msg s, lg @ [(CPrintln msg, Returned)]))"

definition selectSql :: string where
  "selectSql = ''SELECT MarketingBudget FROM Albums WHERE SingerId = @singerId and AlbumId = @albumId''"

definition updateSql :: string where
  "updateSql = ''UPDATE Albums SET MarketingBudget = @budget WHERE SingerId = @singerId and AlbumId = @albumId''"

definition transfer :: int64 where
  "transfer = 20000"

definition transferred_message :: string where
  "transferred_message = ''Transferred marketing budget from Album 2 to Album 1''"

text \<open>
  The body of the \<^verbatim>\<open>if budget2 >= transfer\<close> block (lines 56 to 107). It yields the
  error the block returns with, if any, and \<open>None\<close> when control falls through to
  the commit. \<^verbatim>\<open>budget1 += transfer\<close> and \<^verbatim>\<open>budget2 -= transfer\<close> wrap around, as Go's
  \<^verbatim>\<open>int64\<close> arithmetic does.
\<close>

definition transfer_block ::
  "('s, 'r, 'e) driver \<Rightarrow> int64 \<Rightarrow> 's \<times> ('r, 'e) trace \<Rightarrow> 'e failure option \<times> 's \<times> ('r, 'e) trace" where
  "transfer_block d budget2 st =
     (case do_QueryRow d selectSql [(''singerId'', 1), (''albumId'', 1)] st of
        (Inl e, st) \<Rightarrow> (Some (Propagated e), do_Rollback d st)
      | (Inr budget1, st) \<Rightarrow>
          (let budget1 = budget1 + transfer; budget2 = budget2 - transfer in
           case do_Exec d ''start batch dml'' [] st of
             (Inl e, st) \<Rightarrow> (Some (Propagated e), do_Rollback d st)
           | (Inr _, st) \<Rightarrow>
               (case do_Exec d updateSql
                       [(''singerId'', 1), (''albumId'', 1), (''budget'', budget1)] st of
                  (Inl e, st) \<Rightarrow>
                    (Some (Propagated e), do_Rollback d (snd (do_Exec d ''abort batch'' [] st)))
                | (Inr _, st) \<Rightarrow>
                    (case do_Exec d updateSql
                            [(''singerId'', 2), (''albumId'', 2), (''budget'', budget2)] st of
                       (Inl e, st) \<Rightarrow>
                         (Some (Propagated e), do_Rollback d (snd (do_Exec d ''abort batch'' [] st)))
                     | (Inr _, st) \<Rightarrow>
                         (case do_Exec d ''run batch'' [] st of
                            (Inl e, st) \<Rightarrow> (Some (Propagated e), do_Rollback d st)
                          | (Inr result, st) \<Rightarrow>
                              (case do_RowsAffected d result st of
                                 (Inl e, st) \<Rightarrow> (Some (Propagated e), do_Rollback d st)
                               | (Inr affected, st) \<Rightarrow>
                                   (if affected \<noteq> 2
                                    then (Some (UnexpectedRowsAffected affected), do_Rollback d st)
                                    else (None, st))))))))"

text \<open>
  The function after \<^verbatim>\<open>db.BeginTx\<close> has succeeded (lines 40 to 115). The deferred
  \<^verbatim>\<open>db.Close()\<close> is applied by the caller below, on every path.
\<close>

definition in_transaction ::
  "('s, 'r, 'e) driver \<Rightarrow> 's \<times> ('r, 'e) trace \<Rightarrow> 'e failure option \<times> 's \<times> ('r, 'e) trace" where
  "in_transaction d st =
     (case do_QueryRow d selectSql [(''singerId'', 2), (''albumId'', 2)] st of
        (Inl e, st) \<Rightarrow> (Some (Propagated e), do_Rollback d st)
      | (Inr budget2, st) \<Rightarrow>
          (case (if transfer \<le>s budget2 then transfer_block d budget2 st else (None, st)) of
             (Some e, st) \<Rightarrow> (Some e, st)
           | (None, st) \<Rightarrow>
               (case do_Commit d st of
                  (Some e, st) \<Rightarrow> (Some (Propagated e), st)
                | (None, st) \<Rightarrow> (None, do_Println d transferred_message st))))"

definition WriteWithTransactionUsingDml ::
  "('s, 'r, 'e) driver \<Rightarrow> string \<Rightarrow> 's \<times> ('r, 'e) trace \<Rightarrow> 'e failure option \<times> 's \<times> ('r, 'e) trace" where
  "WriteWithTransactionUsingDml d databaseName st =
     (case do_Open d ''spanner'' databaseName st of
        (Inl e, st) \<Rightarrow> (Some (Propagated e), st)
      | (Inr _, st) \<Rightarrow>
          (case (case do_BeginTx d st of
                   (Inl e, st) \<Rightarrow> (Some (Propagated e), st)
                 | (Inr _, st) \<Rightarrow> in_transaction d st) of
             (r, st) \<Rightarrow> (r, do_Close d st)))"

section \<open>The executor behind the sample\<close>

text \<open>
  The driver that the sample imports (\<^verbatim>\<open>github.com/googleapis/go-sql-spanner\<close>) and the
  database are not among the source files. Section 6 of the specification describes
  them as an Executor with \<^verbatim>\<open>BeginTransaction\<close>, \<^verbatim>\<open>Read\<close>, \<^verbatim>\<open>ExecuteBatch\<close>, \<^verbatim>\<open>Commit\<close>
  and \<^verbatim>\<open>Abort\<close>; sections 3, 4.2, 4.3 and 7 give the Transaction and Batch state
  machines and the error taxonomy. The definitions of this section follow those words.
\<close>

text \<open>Modelled from the spec: the error taxonomy of section 7, with the "already
  terminal" error of section 8 and the error of a read that finds no row.\<close>

datatype error =
    ConstructionError
  | TypeMismatch
  | ConflictAborted
  | ExecutionFailed nat
  | Cancelled
  | AlreadyTerminal
  | NoRows

text \<open>Modelled from the spec: the three states of a Transaction (section 3).\<close>

datatype tx_state = Active | Committed | Aborted

type_synonym key = "int64 \<times> int64"

type_synonym table = "key \<rightharpoonup> int64"

type_synonym statement = "string \<times> params"

text \<open>Modelled from the spec: Batch execution (section 4.2). \<open>ex st db\<close> executes one
  statement on a database state and yields the rows it affected and the new state, or
  \<open>None\<close> when the statement fails. The statements run in submission order, each on
  the state its predecessors left; the first failure stops the run with its index.\<close>

fun run_statements ::
  "('st \<Rightarrow> 'db \<Rightarrow> (nat \<times> 'db) option) \<Rightarrow> 'st list \<Rightarrow> nat \<Rightarrow> 'db \<Rightarrow> nat + (nat list \<times> 'db)" where
  "run_statements ex [] k db = Inr ([], db)"
| "run_statements ex (st # sts) k db =
     (case ex st db of
        None \<Rightarrow> Inl k
      | Some (n, db') \<Rightarrow>
          (case run_statements ex sts (Suc k) db' of
             Inl j \<Rightarrow> Inl j
           | Inr (ns, db'') \<Rightarrow> Inr (n # ns, db'')))"

text \<open>Modelled from the spec: \<^verbatim>\<open>ExecuteBatch\<close> (sections 4.2 and 6). A failed batch
  leaves the database state it was given and reports one error with the failing index.\<close>

definition executeBatch ::
  "('st \<Rightarrow> 'db \<Rightarrow> (nat \<times> 'db) option) \<Rightarrow> 'st list \<Rightarrow> 'db \<Rightarrow> (error + nat list) \<times> 'db" where
  "executeBatch ex sts db =
     (case run_statements ex sts 0 db of
        Inl k \<Rightarrow> (Inl (ExecutionFailed k), db)
      | Inr (ns, db') \<Rightarrow> (Inr ns, db'))"

text \<open>Modelled from the spec: the one kind of update statement the sample submits,
  on a table \<^verbatim>\<open>Albums\<close> keyed by \<^verbatim>\<open>(SingerId, AlbumId)\<close>. A statement whose text is not
  \<open>updateSql\<close>, or with a referenced parameter unbound, fails.\<close>

definition exec_statement :: "statement \<Rightarrow> table \<Rightarrow> (nat \<times> table) option" where
  "exec_statement st db =
     (case st of (q, ps) \<Rightarrow>
        if q = updateSql then
          (case (map_of ps ''singerId'', map_of ps ''albumId'', map_of ps ''budget'') of
             (Some a, Some b, Some v) \<Rightarrow>
               (case db (a, b) of
                  None \<Rightarrow> Some (0, db)
                | Some _ \<Rightarrow> Some (1, db((a, b) \<mapsto> v)))
           | _ \<Rightarrow> None)
        else None)"

text \<open>Modelled from the spec: the one kind of query the sample issues.\<close>

definition read_budget :: "statement \<Rightarrow> table \<Rightarrow> error + int64" where
  "read_budget st db =
     (case st of (q, ps) \<Rightarrow>
        if q = selectSql then
          (case (map_of ps ''singerId'', map_of ps ''albumId'') of
             (Some a, Some b) \<Rightarrow>
               (case db (a, b) of None \<Rightarrow> Inl NoRows | Some v \<Rightarrow> Inr v)
           | _ \<Rightarrow> Inl ConstructionError)
        else Inl (ExecutionFailed 0))"

text \<open>Modelled from the spec: the world the sample runs in. \<open>store\<close> is the committed
  table, \<open>txn\<close> the state of the one Transaction (\<open>None\<close> before it is opened),
  \<open>working\<close> the Transaction's view, \<open>batch\<close> the statements of a Batch while it is
  Building, \<open>written\<close> what has been printed. \<open>faults\<close> says, for each call that
  crosses to the Executor, whether it fails and how; \<open>calls\<close> counts those calls
  (\<open>tick\<close> counts one).\<close>

record world =
  store :: table
  txn :: "tx_state option"
  working :: table
  batch :: "statement list option"
  written :: "string list"
  faults :: "nat \<Rightarrow> error option"
  calls :: nat

definition tick :: "world \<Rightarrow> world" where
  "tick w = w\<lparr>calls := Suc (calls w)\<rparr>"

text \<open>Modelled from the spec: opening the database (outside the core; it can only fail
  or succeed).\<close>

definition mem_Open :: "string \<Rightarrow> string \<Rightarrow> world \<Rightarrow> (error + unit) \<times> world" where
  "mem_Open drv name w =
     (case faults w (calls w) of
        Some e \<Rightarrow> (Inl e, tick w)
      | None \<Rightarrow> (Inr (), tick w))"

text \<open>Modelled from the spec: \<^verbatim>\<open>BeginTransaction\<close> (section 6). The new Transaction is
  Active and sees the committed table.\<close>

definition mem_BeginTx :: "world \<Rightarrow> (error + unit) \<times> world" where
  "mem_BeginTx w =
     (case txn w of
        Some Active \<Rightarrow> (Inl ConstructionError, w)
      | _ \<Rightarrow>
          (case faults w (calls w) of
             Some e \<Rightarrow> (Inl e, tick w)
           | None \<Rightarrow> (Inr (), (tick w)\<lparr>txn := Some Active, working := store w, batch := None\<rparr>)))"

text \<open>Modelled from the spec: \<^verbatim>\<open>Transaction.Read\<close> (sections 4.3 and 6). A failed read
  leaves the Transaction Active: aborting is left to the caller.\<close>

definition mem_QueryRow :: "string \<Rightarrow> params \<Rightarrow> world \<Rightarrow> (error + int64) \<times> world" where
  "mem_QueryRow q ps w =
     (case txn w of
        None \<Rightarrow> (Inl ConstructionError, w)
      | Some Active \<Rightarrow>
          (case faults w (calls w) of
             Some e \<Rightarrow> (Inl e, tick w)
           | None \<Rightarrow> (read_budget (q, ps) (working w), tick w))
      | Some _ \<Rightarrow> (Inl AlreadyTerminal, w))"

text \<open>Modelled from the spec: statement execution inside the Transaction, with the
  Batch protocol of the sample's wire binding (section 9): \<^verbatim>\<open>start batch dml\<close> opens a
  Batch, a statement executed while it is Building is appended, \<^verbatim>\<open>run batch\<close> submits
  it, \<^verbatim>\<open>abort batch\<close> discards it. The result is the list of rows affected, one
  count per statement executed.\<close>

definition mem_Exec :: "string \<Rightarrow> params \<Rightarrow> world \<Rightarrow> (error + nat list) \<times> world" where
  "mem_Exec q ps w =
     (case txn w of
        None \<Rightarrow> (Inl ConstructionError, w)
      | Some Active \<Rightarrow>
          (case faults w (calls w) of
             Some e \<Rightarrow> (Inl e, tick w)
           | None \<Rightarrow>
               (if q = ''start batch dml'' then
                  (case batch w of
                     Some _ \<Rightarrow> (Inl ConstructionError, tick w)
                   | None \<Rightarrow> (Inr [], (tick w)\<lparr>batch := Some []\<rparr>))
                else if q = ''run batch'' then
                  (case batch w of
                     None \<Rightarrow> (Inl ConstructionError, tick w)
                   | Some sts \<Rightarrow>
                       (case executeBatch exec_statement sts (working w) of
                          (Inl e, db) \<Rightarrow> (Inl e, (tick w)\<lparr>working := db, batch := None\<rparr>)
                        | (Inr ns, db) \<Rightarrow> (Inr ns, (tick w)\<lparr>working := db, batch := None\<rparr>)))
                else if q = ''abort batch'' then
                  (Inr [], (tick w)\<lparr>batch := None\<rparr>)
                else
                  (case batch w of
                     Some sts \<Rightarrow> (Inr [], (tick w)\<lparr>batch := Some (sts @ [(q, ps)])\<rparr>)
                   | None \<Rightarrow>
                       (case exec_statement (q, ps) (working w) of
                          None \<Rightarrow> (Inl (ExecutionFailed 0), tick w)
                        | Some (n, db) \<Rightarrow> (Inr [n], (tick w)\<lparr>working := db\<rparr>)))))
      | Some _ \<Rightarrow> (Inl AlreadyTerminal, w))"

text \<open>Modelled from the spec: what \<^verbatim>\<open>RowsAffected\<close> reports for a result. The sample's
  comment on line 93 says that it is the total over the whole batch.\<close>

definition mem_RowsAffected :: "nat list \<Rightarrow> error + int64" where
  "mem_RowsAffected ns = Inr (of_nat (sum_list ns))"

text \<open>Modelled from the spec: \<^verbatim>\<open>Transaction.Abort\<close> (sections 4.3 and 6): on an Active
  Transaction it cannot fail, and the Transaction's writes are dropped.\<close>

definition mem_Abort :: "world \<Rightarrow> (error + unit) \<times> world" where
  "mem_Abort w =
     (case txn w of
        None \<Rightarrow> (Inl ConstructionError, w)
      | Some Active \<Rightarrow> (Inr (), w\<lparr>txn := Some Aborted, working := store w, batch := None\<rparr>)
      | Some _ \<Rightarrow> (Inl AlreadyTerminal, w))"

text \<open>Modelled from the spec: \<^verbatim>\<open>Transaction.Commit\<close> (sections 4.3 and 6). A commit
  that fails (by conflict or otherwise) moves the Transaction to Aborted; one that
  succeeds publishes the Transaction's view.\<close>

definition mem_Commit :: "world \<Rightarrow> error option \<times> world" where
  "mem_Commit w =
     (case txn w of
        None \<Rightarrow> (Some ConstructionError, w)
      | Some Active \<Rightarrow>
          (case faults w (calls w) of
             Some e \<Rightarrow> (Some e, (tick w)\<lparr>txn := Some Aborted, working := store w, batch := None\<rparr>)
           | None \<Rightarrow> (None, (tick w)\<lparr>txn := Some Committed, store := working w, batch := None\<rparr>))
      | Some _ \<Rightarrow> (Some AlreadyTerminal, w))"

text \<open>Modelled from the spec: the collaborators of the sample, put together.
  \<^verbatim>\<open>tx.Rollback()\<close> is \<^verbatim>\<open>Abort\<close> with its result dropped, as the sample drops it.\<close>

definition mem_driver :: "(world, nat list, error) driver" where
  "mem_driver =
     \<lparr> sql_Open = mem_Open,
       db_Close = (\<lambda>w. w),
       db_BeginTx = mem_BeginTx,
       tx_QueryRow_Scan = mem_QueryRow,
       tx_Exec = mem_Exec,
       result_RowsAffected = mem_RowsAffected,
       tx_Rollback = (\<lambda>w. snd (mem_Abort w)),
       tx_Commit = mem_Commit,
       Fprintln = (\<lambda>msg w. w\<lparr>written := written w @ [msg]\<rparr>) \<rparr>"

text \<open>A world with the two rows of the transfer scenario and an Executor that never
  fails; the budget of album (2, 2) is the parameter.\<close>

definition albums :: "int64 \<Rightarrow> table" where
  "albums b = [(1, 1) \<mapsto> 0, (2, 2) \<mapsto> b]"

definition fresh_world :: "table \<Rightarrow> (nat \<Rightarrow> error option) \<Rightarrow> world" where
  "fresh_world db fs =
     \<lparr> store = db, txn = None, working = db, batch = None, written = [],
       faults = fs, calls = 0 \<rparr>"

text \<open>Modelled from the spec: the operations a caller can attempt on a Transaction
  (section 6): \<^verbatim>\<open>Read\<close>, the statements and Batch commands sent through
  \<^verbatim>\<open>Batch.Submit\<close>, \<^verbatim>\<open>Abort\<close> and \<^verbatim>\<open>Commit\<close>; \<open>tx_apply\<close> attempts one and keeps
  the error, if any.\<close>

datatype tx_op = Read string params | Submit string params | Abort | Commit

fun tx_apply :: "tx_op \<Rightarrow> world \<Rightarrow> error option \<times> world" where
  "tx_apply (Read q ps) w =
     (case mem_QueryRow q ps w of (Inl e, w') \<Rightarrow> (Some e, w') | (Inr _, w') \<Rightarrow> (None, w'))"
| "tx_apply (Submit q ps) w =
     (case mem_Exec q ps w of (Inl e, w') \<Rightarrow> (Some e, w') | (Inr _, w') \<Rightarrow> (None, w'))"
| "tx_apply Abort w =
     (case mem_Abort w of (Inl e, w') \<Rightarrow> (Some e, w') | (Inr _, w') \<Rightarrow> (None, w'))"
| "tx_apply Commit w = mem_Commit w"

text \<open>Modelled from the spec: a Transaction is terminal once it is Committed or
  Aborted (section 4.3).\<close>

definition terminal :: "world \<Rightarrow> bool" where
  "terminal w = (txn w = Some Committed \<or> txn w = Some Aborted)"

text \<open>Modelled from the spec: a lifetime of a Transaction is a sequence of attempted
  operations. \<open>tx_run\<close> attempts them in order and collects what each reported;
  \<open>terminal_transitions\<close> counts the steps that took the Transaction from Active to
  a terminal state.\<close>

fun tx_run :: "tx_op list \<Rightarrow> world \<Rightarrow> error option list \<times> world" where
  "tx_run [] w = ([], w)"
| "tx_run (x # xs) w =
     (case tx_apply x w of (e, w') \<Rightarrow> (case tx_run xs w' of (es, w'') \<Rightarrow> (e # es, w'')))"

fun terminal_transitions :: "tx_op list \<Rightarrow> world \<Rightarrow> nat" where
  "terminal_transitions [] w = 0"
| "terminal_transitions (x # xs) w =
     (if txn w = Some Active \<and> terminal (snd (tx_apply x w)) then 1 else 0) +
     terminal_transitions xs (snd (tx_apply x w))"

subsection \<open>Vocabulary for traces of the sample\<close>

definition read_of :: "int64 \<Rightarrow> int64 \<Rightarrow> call" where
  "read_of singer album = CQueryRow selectSql [(''singerId'', singer), (''albumId'', album)]"

definition update_of :: "int64 \<Rightarrow> int64 \<Rightarrow> int64 \<Rightarrow> call" where
  "update_of singer album budget =
     CExec updateSql [(''singerId'', singer), (''albumId'', album), (''budget'', budget)]"

definition is_terminal_call :: "call \<Rightarrow> bool" where
  "is_terminal_call c = (c = CRollback \<or> c = CCommit)"

text \<open>An executor that differs from \<open>mem_driver\<close> only in the number of rows its
  results report; a concrete collaborator for the path on lines 102 to 105.\<close>

definition miscounting_driver :: "int64 \<Rightarrow> (world, nat list, error) driver" where
  "miscounting_driver n = mem_driver\<lparr>result_RowsAffected := (\<lambda>_. Inr n)\<rparr>"

section \<open>The value codec of the data types sample\<close>

text \<open>
  The sample \<^verbatim>\<open>dataTypes\<close> (second source file) passes Go values as statement
  parameters and scans columns back into the fields of \<^verbatim>\<open>nativeTypes\<close>, \<^verbatim>\<open>nullTypes\<close> and
  \<^verbatim>\<open>sqlNullTypes\<close>. The conversion code itself is in the driver, which is not among the
  source files; the types below are read off the sample, \<open>encode\<close> and \<open>decode\<close>
  follow section 4.1 of the specification.
\<close>

text \<open>The element types of the table \<^verbatim>\<open>AllTypes\<close> (\<^verbatim>\<open>createTableStatement\<close>), and JSON,
  which the comment on line 188 names.\<close>

datatype stype =
  TBool | TString | TBytes | TInt64 | TFloat32 | TFloat64 | TNumeric | TDate | TTimestamp | TJson

text \<open>A non-null value of an element type. Floats are their bit patterns, so that
  equality is identity of the value; a numeric is a rational (\<^verbatim>\<open>big.Rat\<close>), a date is
  year, month and day (\<^verbatim>\<open>civil.Date\<close>), a timestamp an instant in nanoseconds.\<close>

datatype payload =
    PBool bool
  | PString string
  | PBytes "8 word list"
  | PInt64 int64
  | PFloat32 "32 word"
  | PFloat64 "64 word"
  | PNumeric rat
  | PDate int int int
  | PTimestamp int
  | PJson string

fun payload_type :: "payload \<Rightarrow> stype" where
  "payload_type (PBool _) = TBool"
| "payload_type (PString _) = TString"
| "payload_type (PBytes _) = TBytes"
| "payload_type (PInt64 _) = TInt64"
| "payload_type (PFloat32 _) = TFloat32"
| "payload_type (PFloat64 _) = TFloat64"
| "payload_type (PNumeric _) = TNumeric"
| "payload_type (PDate _ _ _) = TDate"
| "payload_type (PTimestamp _) = TTimestamp"
| "payload_type (PJson _) = TJson"

text \<open>The declared type of a column: an element type or \<^verbatim>\<open>ARRAY<...>\<close> of one.\<close>

datatype ctype = Scalar stype | Array stype

text \<open>Modelled from the spec: the wire Value of section 3: a null of a declared type, a
  scalar, or a sequence of one element type whose elements may each be null.\<close>

datatype val = VNull ctype | VScalar payload | VArray stype "payload option list"

text \<open>The four shapes in which the sample holds a value (section 9 of the
  specification names them): a plain Go value (\<^verbatim>\<open>bool\<close>), a nullable one
  (\<^verbatim>\<open>spanner.NullBool\<close>; for bytes a \<^verbatim>\<open>[]byte\<close> that may be \<^verbatim>\<open>nil\<close>), a dense native array
  (\<^verbatim>\<open>[]bool\<close>) and an array of nullable elements (\<^verbatim>\<open>[]spanner.NullBool\<close>). A \<^verbatim>\<open>nil\<close>
  slice is the null array.\<close>

datatype shape =
  ScalarShape stype | NullableScalarShape stype | DenseArrayShape stype | NullableArrayShape stype

datatype native =
    Plain payload
  | Nullable stype "payload option"
  | DenseArray stype "payload list option"
  | NullableArray stype "payload option list option"

fun native_shape :: "native \<Rightarrow> shape" where
  "native_shape (Plain p) = ScalarShape (payload_type p)"
| "native_shape (Nullable st _) = NullableScalarShape st"
| "native_shape (DenseArray st _) = DenseArrayShape st"
| "native_shape (NullableArray st _) = NullableArrayShape st"

fun native_type :: "native \<Rightarrow> ctype" where
  "native_type (Plain p) = Scalar (payload_type p)"
| "native_type (Nullable st _) = Scalar st"
| "native_type (DenseArray st _) = Array st"
| "native_type (NullableArray st _) = Array st"

definition elems_typed :: "stype \<Rightarrow> payload option list \<Rightarrow> bool" where
  "elems_typed st xs = list_all (\<lambda>x. case x of None \<Rightarrow> True | Some p \<Rightarrow> payload_type p = st) xs"

text \<open>A native value is well formed when its elements have the element type it names
  (Go's type checker sees to that).\<close>

fun native_ok :: "native \<Rightarrow> bool" where
  "native_ok (Plain p) = True"
| "native_ok (Nullable st x) = elems_typed st [x]"
| "native_ok (DenseArray st None) = True"
| "native_ok (DenseArray st (Some ps)) = elems_typed st (map Some ps)"
| "native_ok (NullableArray st None) = True"
| "native_ok (NullableArray st (Some xs)) = elems_typed st xs"

text \<open>The element types for which the sample has a dense native array: all but
  NUMERIC and JSON (comments on lines 188 and 245; \<^verbatim>\<open>nativeTypes.numericArray\<close> is
  \<^verbatim>\<open>[]spanner.NullNumeric\<close>).\<close>

definition has_dense_native :: "stype \<Rightarrow> bool" where
  "has_dense_native st = (st \<noteq> TNumeric \<and> st \<noteq> TJson)"

text \<open>The shape in which \<^verbatim>\<open>nativeTypes\<close> (lines 229 to 255) holds a column of a declared
  type, read with \<^verbatim>\<open>DecodeToNativeArrays\<close>.\<close>

fun shapeOf :: "ctype \<Rightarrow> shape" where
  "shapeOf (Scalar st) = ScalarShape st"
| "shapeOf (Array st) = (if has_dense_native st then DenseArrayShape st else NullableArrayShape st)"

text \<open>Modelled from the spec: \<^verbatim>\<open>encode(nativeValue, declaredType)\<close> of section 4.1. A
  value whose type is not the declared one is a TypeMismatch, never coerced; a native
  "no value" becomes the null of the declared type.\<close>

fun encode :: "native \<Rightarrow> ctype \<Rightarrow> error + val" where
  "encode (Plain p) t =
     (if t = Scalar (payload_type p) then Inr (VScalar p) else Inl TypeMismatch)"
| "encode (Nullable st x) t =
     (if t = Scalar st \<and> elems_typed st [x]
      then (case x of None \<Rightarrow> Inr (VNull (Scalar st)) | Some p \<Rightarrow> Inr (VScalar p))
      else Inl TypeMismatch)"
| "encode (DenseArray st xs) t =
     (if t = Array st
      then (case xs of
              None \<Rightarrow> Inr (VNull (Array st))
            | Some ps \<Rightarrow>
                if elems_typed st (map Some ps) then Inr (VArray st (map Some ps))
                else Inl TypeMismatch)
      else Inl TypeMismatch)"
| "encode (NullableArray st xs) t =
     (if t = Array st
      then (case xs of
              None \<Rightarrow> Inr (VNull (Array st))
            | Some ys \<Rightarrow> if elems_typed st ys then Inr (VArray st ys) else Inl TypeMismatch)
      else Inl TypeMismatch)"

text \<open>Modelled from the spec: the dense form of a sequence: its elements, when none of
  them is null.\<close>

fun dense :: "'a option list \<Rightarrow> 'a list option" where
  "dense [] = Some []"
| "dense (None # xs) = None"
| "dense (Some x # xs) = (case dense xs of None \<Rightarrow> None | Some ys \<Rightarrow> Some (x # ys))"

text \<open>Modelled from the spec: \<^verbatim>\<open>decode(Value, requestedNativeShape)\<close> of section 4.1.
  Any mismatch of type or shape is a TypeMismatch; a dense array is refused for an
  element type without a dense native counterpart, and for a sequence with a null
  element.\<close>

fun decode :: "val \<Rightarrow> shape \<Rightarrow> error + native" where
  "decode (VScalar p) (ScalarShape st) =
     (if payload_type p = st then Inr (Plain p) else Inl TypeMismatch)"
| "decode (VScalar p) (NullableScalarShape st) =
     (if payload_type p = st then Inr (Nullable st (Some p)) else Inl TypeMismatch)"
| "decode (VNull t) (NullableScalarShape st) =
     (if t = Scalar st then Inr (Nullable st None) else Inl TypeMismatch)"
| "decode (VNull t) (DenseArrayShape st) =
     (if t = Array st \<and> has_dense_native st then Inr (DenseArray st None) else Inl TypeMismatch)"
| "decode (VArray st' xs) (DenseArrayShape st) =
     (if st' = st \<and> has_dense_native st \<and> elems_typed st xs
      then (case dense xs of
              None \<Rightarrow> Inl TypeMismatch
            | Some ps \<Rightarrow> Inr (DenseArray st (Some ps)))
      else Inl TypeMismatch)"
| "decode (VNull t) (NullableArrayShape st) =
     (if t = Array st then Inr (NullableArray st None) else Inl TypeMismatch)"
| "decode (VArray st' xs) (NullableArrayShape st) =
     (if st' = st \<and> elems_typed st xs then Inr (NullableArray st (Some xs))
      else Inl TypeMismatch)"
| "decode _ _ = Inl TypeMismatch"

text \<open>The declared type a wire Value belongs to.\<close>

fun val_type :: "val \<Rightarrow> ctype" where
  "val_type (VNull t) = t"
| "val_type (VScalar p) = Scalar (payload_type p)"
| "val_type (VArray st _) = Array st"

section \<open>Properties of the transfer sample\<close>

subsection \<open>Each call, as one step on the collaborator state and the trace\<close>

lemma do_Open_eq:
  "do_Open d drv name st =
     (fst (sql_Open d drv name (fst st)), snd (sql_Open d drv name (fst st)),
      snd st @ [(COpen drv name,
                 case fst (sql_Open d drv name (fst st)) of Inl e \<Rightarrow> Failed e | Inr _ \<Rightarrow> Returned)])"
  by (simp add: do_Open_def split: prod.splits sum.splits)

lemma do_Close_eq:
  "do_Close d st = (db_Close d (fst st), snd st @ [(CClose, Returned)])"
  by (simp add: do_Close_def split: prod.splits)

lemma do_BeginTx_eq:
  "do_BeginTx d st =
     (fst (db_BeginTx d (fst st)), snd (db_BeginTx d (fst st)),
      snd st @ [(CBeginTx,
                 case fst (db_BeginTx d (fst st)) of Inl e \<Rightarrow> Failed e | Inr _ \<Rightarrow> Returned)])"
  by (simp add: do_BeginTx_def split: prod.splits sum.splits)

lemma do_QueryRow_eq:
  "do_QueryRow d q ps st =
     (fst (tx_QueryRow_Scan d q ps (fst st)), snd (tx_QueryRow_Scan d q ps (fst st)),
      snd st @ [(CQueryRow q ps,
                 case fst (tx_QueryRow_Scan d q ps (fst st)) of
                   Inl e \<Rightarrow> Failed e | Inr v \<Rightarrow> ReturnedInt v)])"
  by (simp add: do_QueryRow_def split: prod.splits sum.splits)

lemma do_Exec_eq:
  "do_Exec d q ps st =
     (fst (tx_Exec d q ps (fst st)), snd (tx_Exec d q ps (fst st)),
      snd st @ [(CExec q ps,
                 case fst (tx_Exec d q ps (fst st)) of
                   Inl e \<Rightarrow> Failed e | Inr r \<Rightarrow> ReturnedResult r)])"
  by (simp add: do_Exec_def split: prod.splits sum.splits)

lemma do_RowsAffected_eq:
  "do_RowsAffected d r st =
     (result_RowsAffected d r, fst st,
      snd st @ [(CRowsAffected,
                 case result_RowsAffected d r of Inl e \<Rightarrow> Failed e | Inr v \<Rightarrow> ReturnedInt v)])"
  by (simp add: do_RowsAffected_def split: prod.splits sum.splits)

lemma do_Rollback_eq:
  "do_Rollback d st = (tx_Rollback d (fst st), snd st @ [(CRollback, Returned)])"
  by (simp add: do_Rollback_def split: prod.splits)

lemma do_Commit_eq:
  "do_Commit d st =
     (fst (tx_Commit d (fst st)), snd (tx_Commit d (fst st)),
      snd st @ [(CCommit,
                 case fst (tx_Commit d (fst st)) of Some e \<Rightarrow> Failed e | None \<Rightarrow> Returned)])"
  by (simp add: do_Commit_def split: prod.splits option.splits)

lemma do_Println_eq:
  "do_Println d msg st = (Fprintln d msg (fst st), snd st @ [(CPrintln msg, Returned)])"
  by (simp add: do_Println_def split: prod.splits)

lemmas step_eqs = do_Open_eq do_Close_eq do_BeginTx_eq do_QueryRow_eq do_Exec_eq
  do_RowsAffected_eq do_Rollback_eq do_Commit_eq do_Println_eq

lemmas do_defs = do_Open_def do_Close_def do_BeginTx_def do_QueryRow_def do_Exec_def
  do_RowsAffected_def do_Rollback_def do_Commit_def do_Println_def

lemmas sample_defs =
  WriteWithTransactionUsingDml_def in_transaction_def transfer_block_def Let_def

subsection \<open>The executor, step by step\<close>

lemma mem_driver_simps:
  "sql_Open mem_driver = mem_Open"
  "db_Close mem_driver = (\<lambda>w. w)"
  "db_BeginTx mem_driver = mem_BeginTx"
  "tx_QueryRow_Scan mem_driver = mem_QueryRow"
  "tx_Exec mem_driver = mem_Exec"
  "result_RowsAffected mem_driver = mem_RowsAffected"
  "tx_Rollback mem_driver = (\<lambda>w. snd (mem_Abort w))"
  "tx_Commit mem_driver = mem_Commit"
  "Fprintln mem_driver = (\<lambda>msg w. w\<lparr>written := written w @ [msg]\<rparr>)"
  by (simp_all add: mem_driver_def)

lemma miscounting_driver_simps:
  "sql_Open (miscounting_driver n) = mem_Open"
  "db_Close (miscounting_driver n) = (\<lambda>w. w)"
  "db_BeginTx (miscounting_driver n) = mem_BeginTx"
  "tx_QueryRow_Scan (miscounting_driver n) = mem_QueryRow"
  "tx_Exec (miscounting_driver n) = mem_Exec"
  "result_RowsAffected (miscounting_driver n) = (\<lambda>_. Inr n)"
  "tx_Rollback (miscounting_driver n) = (\<lambda>w. snd (mem_Abort w))"
  "tx_Commit (miscounting_driver n) = mem_Commit"
  "Fprintln (miscounting_driver n) = (\<lambda>msg w. w\<lparr>written := written w @ [msg]\<rparr>)"
  by (simp_all add: miscounting_driver_def mem_driver_def)

lemma sql_text_distinct:
  "updateSql \<noteq> ''start batch dml''"
  "updateSql \<noteq> ''run batch''"
  "updateSql \<noteq> ''abort batch''"
  "''run batch'' \<noteq> ''start batch dml''"
  "''abort batch'' \<noteq> ''start batch dml''"
  "''abort batch'' \<noteq> ''run batch''"
  by (simp_all add: updateSql_def)

lemmas mem_defs = fresh_world_def mem_Open_def mem_BeginTx_def mem_QueryRow_def tick_def
  read_budget_def mem_Exec_def sql_text_distinct mem_RowsAffected_def mem_Commit_def
  mem_Abort_def executeBatch_def exec_statement_def

lemma not_transfer_sle: "b <s transfer \<Longrightarrow> \<not> transfer \<le>s b"
  using signed.not_le by blast

subsection \<open>An unexpected number of affected rows\<close>

text \<open>
  Claim C8. If the submitted batch reports a number of affected rows other than 2, the
  sample rolls the transaction back and returns an error of its own making, which is
  not an error of a collaborator; \<^verbatim>\<open>Commit\<close> is never called. This holds for every
  collaborator: whenever the trace holds \<^verbatim>\<open>RowsAffected\<close> returning \<open>n \<noteq> 2\<close>, the
  result is \<open>UnexpectedRowsAffected n\<close>, the trace ends with that call, the
  \<^verbatim>\<open>Rollback\<close> and the deferred \<^verbatim>\<open>Close\<close>, and no \<^verbatim>\<open>Commit\<close> is in it.
\<close>

theorem unexpected_rows_affected_aborts:
  assumes "WriteWithTransactionUsingDml d name (s0, []) = (r, s', lg)"
    and "(CRowsAffected, ReturnedInt n) \<in> set lg"
    and "n \<noteq> 2"
  shows "r = Some (UnexpectedRowsAffected n) \<and> (\<forall>e. r \<noteq> Some (Propagated e)) \<and>
     (\<exists>pre s''. lg = pre @ [(CRowsAffected, ReturnedInt n), (CRollback, Returned), (CClose, Returned)] \<and>
        s' = db_Close d (tx_Rollback d s'')) \<and>
     CCommit \<notin> fst ` set lg"
  using assms
  unfolding sample_defs step_eqs
  by (auto split: sum.splits option.splits if_splits)

theorem unexpected_rows_affected_aborts_witness:
  "\<exists>w' lg.
     WriteWithTransactionUsingDml (miscounting_driver 1) ''db''
       (fresh_world (albums 25000) (\<lambda>_. None), []) = (Some (UnexpectedRowsAffected 1), w', lg) \<and>
     (CRowsAffected, ReturnedInt 1) \<in> set lg \<and> (1 :: int64) \<noteq> 2 \<and>
     CCommit \<notin> fst ` set lg \<and> txn w' = Some Aborted \<and> store w' = albums 25000"
proof -
  obtain r w' lg where run:
    "WriteWithTransactionUsingDml (miscounting_driver 1) ''db''
       (fresh_world (albums 25000) (\<lambda>_. None), []) = (r, w', lg)"
    by (metis prod_cases3)
  from run have facts:
    "(CRowsAffected, ReturnedInt 1) \<in> set lg" "txn w' = Some Aborted" "store w' = albums 25000"
    unfolding sample_defs
    by (auto simp: do_defs miscounting_driver_simps mem_defs transfer_def albums_def)
  have ne: "(1 :: int64) \<noteq> 2" by simp
  from unexpected_rows_affected_aborts [OF run facts(1) ne]
  have "r = Some (UnexpectedRowsAffected 1)" and "CCommit \<notin> fst ` set lg" by simp_all
  with run facts ne show ?thesis by blast
qed

subsection \<open>What a successful return says\<close>

text \<open>
  Claim C10. Every execution of \<open>WriteWithTransactionUsingDml\<close> that returns
  \<^verbatim>\<open>nil\<close> has written "Transferred marketing budget from Album 2 to Album 1" to the
  writer: the trace ends with the successful \<^verbatim>\<open>Commit\<close>, the \<^verbatim>\<open>Fprintln\<close> of the message
  and the deferred \<^verbatim>\<open>Close\<close>. This includes the executions in which the budget read
  was below the transfer amount: there no statement at all was executed, so the
  message does not say that a transfer took place.
\<close>

theorem success_prints_message:
  assumes "WriteWithTransactionUsingDml d name (s0, []) = (None, s', lg)"
  shows "(\<exists>pre s''. lg = pre @ [(CCommit, Returned), (CPrintln transferred_message, Returned),
                               (CClose, Returned)] \<and>
            s' = db_Close d (Fprintln d transferred_message s'')) \<and>
         (\<forall>b. (read_of 2 2, ReturnedInt b) \<in> set lg \<and> b <s transfer \<longrightarrow>
            (\<forall>q ps x. (CExec q ps, x) \<notin> set lg))"
  using assms
  unfolding sample_defs step_eqs read_of_def
  by (auto split: sum.splits option.splits if_splits)

theorem success_prints_message_witness:
  "\<exists>w' lg.
     WriteWithTransactionUsingDml mem_driver ''db''
       (fresh_world (albums 10000) (\<lambda>_. None), []) = (None, w', lg) \<and>
     (read_of 2 2, ReturnedInt 10000) \<in> set lg \<and> (10000 :: int64) <s transfer \<and>
     (CPrintln transferred_message, Returned) \<in> set lg \<and>
     (\<forall>q ps x. (CExec q ps, x) \<notin> set lg) \<and>
     written w' = [transferred_message] \<and> store w' = albums 10000"
proof -
  have lt: "(10000 :: int64) <s transfer" by (simp add: transfer_def)
  obtain r w' lg where run:
    "WriteWithTransactionUsingDml mem_driver ''db''
       (fresh_world (albums 10000) (\<lambda>_. None), []) = (r, w', lg)"
    by (metis prod_cases3)
  from run have facts:
    "r = None" "(read_of 2 2, ReturnedInt 10000) \<in> set lg"
    "written w' = [transferred_message]" "store w' = albums 10000"
    unfolding sample_defs read_of_def
    by (auto simp: do_defs mem_driver_simps mem_defs albums_def not_transfer_sle [OF lt])
  from run facts(1) have run': 
    "WriteWithTransactionUsingDml mem_driver ''db''
       (fresh_world (albums 10000) (\<lambda>_. None), []) = (None, w', lg)"
    by simp
  from success_prints_message [OF run'] facts(2) lt
  have "(CPrintln transferred_message, Returned) \<in> set lg"
    and "\<forall>q ps x. (CExec q ps, x) \<notin> set lg"
    by auto
  with run' facts lt show ?thesis by blast
qed

subsection \<open>The transfer scenario\<close>

lemma transfer_trace:
  assumes "WriteWithTransactionUsingDml d name (s0, []) = (None, s', lg)"
    and "(read_of 2 2, ReturnedInt 25000) \<in> set lg"
    and "(read_of 1 1, ReturnedInt 0) \<in> set lg"
  shows "map fst lg =
      [COpen ''spanner'' name, CBeginTx, read_of 2 2, read_of 1 1, CExec ''start batch dml'' [],
       update_of 1 1 20000, update_of 2 2 5000, CExec ''run batch'' [], CRowsAffected, CCommit,
       CPrintln transferred_message, CClose] \<and>
     (CRowsAffected, ReturnedInt 2) \<in> set lg \<and> (CCommit, Returned) \<in> set lg"
  using assms
  unfolding sample_defs step_eqs read_of_def update_of_def
  by (auto split: sum.splits option.splits if_splits simp: transfer_def)

lemma transfer_run:
  assumes "db (1, 1) = Some 0" and "db (2, 2) = Some 25000"
  shows "WriteWithTransactionUsingDml mem_driver name (fresh_world db (\<lambda>_. None), []) =
     (None,
       \<lparr> store = db((1, 1) \<mapsto> 20000, (2, 2) \<mapsto> 5000), txn = Some Committed,
         working = db((1, 1) \<mapsto> 20000, (2, 2) \<mapsto> 5000), batch = None,
         written = [transferred_message], faults = (\<lambda>_. None), calls = 9 \<rparr>,
       [(COpen ''spanner'' name, Returned), (CBeginTx, Returned),
        (read_of 2 2, ReturnedInt 25000), (read_of 1 1, ReturnedInt 0),
        (CExec ''start batch dml'' [], ReturnedResult []),
        (update_of 1 1 20000, ReturnedResult []),
        (update_of 2 2 5000, ReturnedResult []),
        (CExec ''run batch'' [], ReturnedResult [1, 1]),
        (CRowsAffected, ReturnedInt 2), (CCommit, Returned),
        (CPrintln transferred_message, Returned), (CClose, Returned)])"
  using assms
  unfolding sample_defs read_of_def update_of_def
  by (simp add: do_defs mem_driver_simps mem_defs transfer_def)

text \<open>
  Claim C5. In the transfer scenario the transaction reads a budget of 25000 for key
  (2, 2) and of 0 for key (1, 1), and the transfer amount is 20000. The first part is
  about the sample with any collaborator: a run with these two reads that returns
  \<^verbatim>\<open>nil\<close> has made exactly these calls: the two reads, a batch of the update of
  key (1, 1) to 20000 and of key (2, 2) to 5000, its submission, \<^verbatim>\<open>RowsAffected\<close>
  (returning 2), \<^verbatim>\<open>Commit\<close> (succeeding), and the message. The second part runs the
  sample on the executor of the specification, on any table with these two budgets
  and without faults: the batch reports the counts [1, 1], the commit succeeds, and
  the table afterwards holds 20000 for key (1, 1) and 5000 for key (2, 2), every
  other row as before.
\<close>

theorem transfer_scenario:
  "(\<forall>d name s0 s' lg.
      WriteWithTransactionUsingDml d name (s0, []) = (None, s', lg) \<and>
      (read_of 2 2, ReturnedInt 25000) \<in> set lg \<and> (read_of 1 1, ReturnedInt 0) \<in> set lg \<longrightarrow>
        map fst lg =
          [COpen ''spanner'' name, CBeginTx, read_of 2 2, read_of 1 1,
           CExec ''start batch dml'' [], update_of 1 1 20000, update_of 2 2 5000,
           CExec ''run batch'' [], CRowsAffected, CCommit, CPrintln transferred_message, CClose] \<and>
        (CRowsAffected, ReturnedInt 2) \<in> set lg \<and> (CCommit, Returned) \<in> set lg) \<and>
   (\<forall>name db. db (1, 1) = Some 0 \<and> db (2, 2) = Some 25000 \<longrightarrow>
      (\<exists>w' lg.
         WriteWithTransactionUsingDml mem_driver name (fresh_world db (\<lambda>_. None), []) = (None, w', lg) \<and>
         (read_of 2 2, ReturnedInt 25000) \<in> set lg \<and> (read_of 1 1, ReturnedInt 0) \<in> set lg \<and>
         (CExec ''run batch'' [], ReturnedResult [1, 1]) \<in> set lg \<and>
         (CCommit, Returned) \<in> set lg \<and> txn w' = Some Committed \<and>
         store w' = db((1, 1) \<mapsto> 20000, (2, 2) \<mapsto> 5000)))"
  (is "?any_collaborator \<and> ?on_executor")
proof
  show ?any_collaborator
  proof (intro allI impI)
    fix d :: "('s, 'r, 'e) driver" and name s0 s' and lg :: "('r, 'e) trace"
    assume "WriteWithTransactionUsingDml d name (s0, []) = (None, s', lg) \<and>
      (read_of 2 2, ReturnedInt 25000) \<in> set lg \<and> (read_of 1 1, ReturnedInt 0) \<in> set lg"
    then have run: "WriteWithTransactionUsingDml d name (s0, []) = (None, s', lg)"
      and r2: "(read_of 2 2, ReturnedInt 25000) \<in> set lg"
      and r1: "(read_of 1 1, ReturnedInt 0) \<in> set lg"
      by simp_all
    show "map fst lg =
          [COpen ''spanner'' name, CBeginTx, read_of 2 2, read_of 1 1,
           CExec ''start batch dml'' [], update_of 1 1 20000, update_of 2 2 5000,
           CExec ''run batch'' [], CRowsAffected, CCommit, CPrintln transferred_message, CClose] \<and>
        (CRowsAffected, ReturnedInt 2) \<in> set lg \<and> (CCommit, Returned) \<in> set lg"
      by (rule transfer_trace [OF run r2 r1])
  qed
  show ?on_executor
  proof (intro allI impI)
    fix name and db :: table
    assume "db (1, 1) = Some 0 \<and> db (2, 2) = Some 25000"
    then have "db (1, 1) = Some 0" and "db (2, 2) = Some 25000" by simp_all
    from transfer_run [of db name, OF this]
    show "\<exists>w' lg.
         WriteWithTransactionUsingDml mem_driver name (fresh_world db (\<lambda>_. None), []) = (None, w', lg) \<and>
         (read_of 2 2, ReturnedInt 25000) \<in> set lg \<and> (read_of 1 1, ReturnedInt 0) \<in> set lg \<and>
         (CExec ''run batch'' [], ReturnedResult [1, 1]) \<in> set lg \<and>
         (CCommit, Returned) \<in> set lg \<and> txn w' = Some Committed \<and>
         store w' = db((1, 1) \<mapsto> 20000, (2, 2) \<mapsto> 5000)"
      by simp
  qed
qed

theorem transfer_scenario_witness:
  "albums 25000 (1, 1) = Some 0 \<and> albums 25000 (2, 2) = Some 25000 \<and>
   (\<exists>w' lg.
      WriteWithTransactionUsingDml mem_driver ''db'' (fresh_world (albums 25000) (\<lambda>_. None), []) =
        (None, w', lg) \<and>
      map fst lg =
        [COpen ''spanner'' ''db'', CBeginTx, read_of 2 2, read_of 1 1,
         CExec ''start batch dml'' [], update_of 1 1 20000, update_of 2 2 5000,
         CExec ''run batch'' [], CRowsAffected, CCommit, CPrintln transferred_message, CClose] \<and>
      (CExec ''run batch'' [], ReturnedResult [1, 1]) \<in> set lg \<and>
      store w' (1, 1) = Some 20000 \<and> store w' (2, 2) = Some 5000)"
proof -
  have rows: "albums 25000 (1, 1) = Some 0 \<and> albums 25000 (2, 2) = Some 25000"
    by (simp add: albums_def)
  note on_executor =
    transfer_scenario [THEN conjunct2, THEN spec [of _ "''db''"],
      THEN spec [of _ "albums 25000"], THEN mp, OF rows]
  then obtain w' :: world and lg :: "(nat list, error) trace" where
    run: "WriteWithTransactionUsingDml mem_driver ''db'' (fresh_world (albums 25000) (\<lambda>_. None), []) =
            (None, w', lg)"
    and r2: "(read_of 2 2, ReturnedInt 25000) \<in> set lg"
    and r1: "(read_of 1 1, ReturnedInt 0) \<in> set lg"
    and batch: "(CExec ''run batch'' [], ReturnedResult [1, 1]) \<in> set lg"
    and final: "store w' = (albums 25000)((1, 1) \<mapsto> 20000, (2, 2) \<mapsto> 5000)"
    by (elim exE conjE) (rule that)
  note any_collaborator =
    transfer_scenario [THEN conjunct1, THEN spec [of _ mem_driver], THEN spec [of _ "''db''"],
      THEN spec, THEN spec [of _ w'], THEN spec [of _ lg], THEN mp, OF conjI, OF run, OF conjI,
      OF r2 r1]
  then have calls: "map fst lg =
        [COpen ''spanner'' ''db'', CBeginTx, read_of 2 2, read_of 1 1,
         CExec ''start batch dml'' [], update_of 1 1 20000, update_of 2 2 5000,
         CExec ''run batch'' [], CRowsAffected, CCommit, CPrintln transferred_message, CClose]"
    by (rule conjunct1)
  from final have "store w' (1, 1) = Some 20000" and "store w' (2, 2) = Some 5000"
    by simp_all
  with rows run calls batch show ?thesis
    by (intro conjI exI [of _ w'] exI [of _ lg]) simp_all
qed

subsection \<open>A failed precondition\<close>

lemma no_transfer_trace:
  assumes "WriteWithTransactionUsingDml d name (s0, []) = (r, s', lg)"
    and "(read_of 2 2, ReturnedInt b) \<in> set lg"
    and "b <s transfer"
  shows "map fst lg =
      [COpen ''spanner'' name, CBeginTx, read_of 2 2, CCommit] @
      (if r = None then [CPrintln transferred_message] else []) @ [CClose] \<and>
      (r = None \<longleftrightarrow> (CCommit, Returned) \<in> set lg)"
  using assms
  unfolding sample_defs step_eqs read_of_def
  by (auto split: sum.splits option.splits if_splits)

lemma no_transfer_store:
  assumes "db (2, 2) = Some b" and "b <s transfer"
    and "WriteWithTransactionUsingDml mem_driver name (fresh_world db fs, []) = (r, w', lg)"
  shows "store w' = db \<and> (\<forall>q ps x. (CExec q ps, x) \<notin> set lg)"
  using assms
  unfolding sample_defs
  by (auto simp: do_defs mem_driver_simps mem_defs not_transfer_sle split: option.splits)

lemma no_transfer_run:
  assumes "db (2, 2) = Some b" and "b <s transfer"
  shows "WriteWithTransactionUsingDml mem_driver name (fresh_world db (\<lambda>_. None), []) =
     (None,
       \<lparr> store = db, txn = Some Committed, working = db, batch = None,
         written = [transferred_message], faults = (\<lambda>_. None), calls = 4 \<rparr>,
       [(COpen ''spanner'' name, Returned), (CBeginTx, Returned),
        (read_of 2 2, ReturnedInt b), (CCommit, Returned),
        (CPrintln transferred_message, Returned), (CClose, Returned)])"
  using assms
  unfolding sample_defs read_of_def
  by (simp add: do_defs mem_driver_simps mem_defs not_transfer_sle)

text \<open>
  Claim C7. When the budget read for key (2, 2) is below the transfer amount, no batch
  of update statements is built, the commit is still attempted and, on an executor
  that does not fail, succeeds as a write of nothing; the table is left as it was. The
  first part is about the sample with any collaborator: after such a read the only
  further calls are \<^verbatim>\<open>Commit\<close>, the message when the commit succeeded, and \<^verbatim>\<open>Close\<close>;
  the function returns \<^verbatim>\<open>nil\<close> exactly when the commit succeeded. The second part
  runs the sample on the executor of the specification: whatever faults occur, the
  committed table is unchanged and no statement was executed; without faults the
  commit succeeds.
\<close>

theorem failed_precondition_commits_nothing:
  "(\<forall>d name s0 r s' lg b.
      WriteWithTransactionUsingDml d name (s0, []) = (r, s', lg) \<and>
      (read_of 2 2, ReturnedInt b) \<in> set lg \<and> b <s transfer \<longrightarrow>
        map fst lg =
          [COpen ''spanner'' name, CBeginTx, read_of 2 2, CCommit] @
          (if r = None then [CPrintln transferred_message] else []) @ [CClose] \<and>
        (r = None \<longleftrightarrow> (CCommit, Returned) \<in> set lg)) \<and>
   (\<forall>name db b. db (2, 2) = Some b \<and> b <s transfer \<longrightarrow>
      (\<forall>fs r w' lg.
         WriteWithTransactionUsingDml mem_driver name (fresh_world db fs, []) = (r, w', lg) \<longrightarrow>
           store w' = db \<and> (\<forall>q ps x. (CExec q ps, x) \<notin> set lg)) \<and>
      (\<exists>w' lg.
         WriteWithTransactionUsingDml mem_driver name (fresh_world db (\<lambda>_. None), []) = (None, w', lg) \<and>
         (read_of 2 2, ReturnedInt b) \<in> set lg \<and> (CCommit, Returned) \<in> set lg \<and>
         txn w' = Some Committed \<and> store w' = db))"
  (is "?any_collaborator \<and> ?on_executor")
proof
  show ?any_collaborator
  proof (intro allI impI)
    fix d :: "('s, 'r, 'e) driver" and name s0 r s' b and lg :: "('r, 'e) trace"
    assume "WriteWithTransactionUsingDml d name (s0, []) = (r, s', lg) \<and>
      (read_of 2 2, ReturnedInt b) \<in> set lg \<and> b <s transfer"
    then have run: "WriteWithTransactionUsingDml d name (s0, []) = (r, s', lg)"
      and r2: "(read_of 2 2, ReturnedInt b) \<in> set lg" and lt: "b <s transfer"
      by simp_all
    show "map fst lg =
          [COpen ''spanner'' name, CBeginTx, read_of 2 2, CCommit] @
          (if r = None then [CPrintln transferred_message] else []) @ [CClose] \<and>
        (r = None \<longleftrightarrow> (CCommit, Returned) \<in> set lg)"
      by (rule no_transfer_trace [OF run r2 lt])
  qed
  show ?on_executor
  proof (intro allI impI)
    fix name b and db :: table
    assume "db (2, 2) = Some b \<and> b <s transfer"
    then have row: "db (2, 2) = Some b" and lt: "b <s transfer" by simp_all
    have "\<forall>fs r w' lg.
         WriteWithTransactionUsingDml mem_driver name (fresh_world db fs, []) = (r, w', lg) \<longrightarrow>
           store w' = db \<and> (\<forall>q ps x. (CExec q ps, x) \<notin> set lg)"
    proof (intro allI impI)
      fix fs r w' and lg :: "(nat list, error) trace"
      assume run: "WriteWithTransactionUsingDml mem_driver name (fresh_world db fs, []) = (r, w', lg)"
      show "store w' = db \<and> (\<forall>q ps x. (CExec q ps, x) \<notin> set lg)"
        by (rule no_transfer_store [of db b, OF row lt run])
    qed
    moreover have "\<exists>w' lg.
         WriteWithTransactionUsingDml mem_driver name (fresh_world db (\<lambda>_. None), []) = (None, w', lg) \<and>
         (read_of 2 2, ReturnedInt b) \<in> set lg \<and> (CCommit, Returned) \<in> set lg \<and>
         txn w' = Some Committed \<and> store w' = db"
      using no_transfer_run [of db b name, OF row lt] by simp
    ultimately show
      "(\<forall>fs r w' lg.
         WriteWithTransactionUsingDml mem_driver name (fresh_world db fs, []) = (r, w', lg) \<longrightarrow>
           store w' = db \<and> (\<forall>q ps x. (CExec q ps, x) \<notin> set lg)) \<and>
      (\<exists>w' lg.
         WriteWithTransactionUsingDml mem_driver name (fresh_world db (\<lambda>_. None), []) = (None, w', lg) \<and>
         (read_of 2 2, ReturnedInt b) \<in> set lg \<and> (CCommit, Returned) \<in> set lg \<and>
         txn w' = Some Committed \<and> store w' = db)"
      by (rule conjI)
  qed
qed

theorem failed_precondition_commits_nothing_witness:
  "albums 10000 (2, 2) = Some 10000 \<and> (10000 :: int64) <s transfer \<and>
   (\<exists>w' lg.
      WriteWithTransactionUsingDml mem_driver ''db'' (fresh_world (albums 10000) (\<lambda>_. None), []) =
        (None, w', lg) \<and>
      map fst lg =
        [COpen ''spanner'' ''db'', CBeginTx, read_of 2 2, CCommit,
         CPrintln transferred_message, CClose] \<and>
      txn w' = Some Committed \<and> store w' = albums 10000)"
proof -
  have row: "albums 10000 (2, 2) = Some 10000" by (simp add: albums_def)
  have lt: "(10000 :: int64) <s transfer" by (simp add: transfer_def)
  note on_executor =
    failed_precondition_commits_nothing [THEN conjunct2, THEN spec [of _ "''db''"],
      THEN spec [of _ "albums 10000"], THEN spec [of _ 10000], THEN mp, OF conjI, OF row lt,
      THEN conjunct2]
  then obtain w' :: world and lg :: "(nat list, error) trace" where
    run: "WriteWithTransactionUsingDml mem_driver ''db'' (fresh_world (albums 10000) (\<lambda>_. None), []) =
            (None, w', lg)"
    and r2: "(read_of 2 2, ReturnedInt 10000) \<in> set lg"
    and final: "txn w' = Some Committed" "store w' = albums 10000"
    by (elim exE conjE) (rule that)
  note any_collaborator =
    failed_precondition_commits_nothing [THEN conjunct1, THEN spec [of _ mem_driver],
      THEN spec [of _ "''db''"], THEN spec, THEN spec [of _ None], THEN spec [of _ w'],
      THEN spec [of _ lg], THEN spec [of _ 10000], THEN mp, OF conjI, OF run, OF conjI, OF r2 lt]
  then have "map fst lg =
        [COpen ''spanner'' ''db'', CBeginTx, read_of 2 2, CCommit,
         CPrintln transferred_message, CClose]"
    by simp
  with row lt run final show ?thesis
    by (intro conjI exI [of _ w'] exI [of _ lg]) simp_all
qed

subsection \<open>Errors while the transaction is open\<close>

lemma failure_rolls_back:
  assumes "WriteWithTransactionUsingDml d name (s0, []) = (r, s', lg)"
    and "(CBeginTx, Returned) \<in> set lg"
    and "(\<exists>c e. (c, Failed e) \<in> set lg \<and> c \<noteq> CCommit) \<or>
         (\<exists>n. (CRowsAffected, ReturnedInt n) \<in> set lg \<and> n \<noteq> 2)"
  shows "r \<noteq> None \<and> CCommit \<notin> fst ` set lg \<and>
     (\<exists>pre s''. lg = pre @ [(CRollback, Returned), (CClose, Returned)] \<and>
        CRollback \<notin> fst ` set pre \<and> s' = db_Close d (tx_Rollback d s''))"
  using assms
  unfolding sample_defs step_eqs
  by (auto split: sum.splits option.splits if_splits)

lemma error_ends_transaction:
  assumes "WriteWithTransactionUsingDml d name (s0, []) = (Some f, s', lg)"
    and "(CBeginTx, Returned) \<in> set lg"
  shows "(\<exists>pre. lg = pre @ [(CRollback, Returned), (CClose, Returned)]) \<or>
         (\<exists>pre e. f = Propagated e \<and> lg = pre @ [(CCommit, Failed e), (CClose, Returned)])"
  using assms
  unfolding sample_defs step_eqs
  by (auto split: sum.splits option.splits if_splits)

lemma final_state_shape:
  assumes "WriteWithTransactionUsingDml d name (s0, []) = (Some f, s', lg)"
  shows "s' = snd (sql_Open d ''spanner'' name s0)
    \<or> s' = db_Close d (snd (db_BeginTx d (snd (sql_Open d ''spanner'' name s0)))) \<and>
        (\<exists>e. fst (db_BeginTx d (snd (sql_Open d ''spanner'' name s0))) = Inl e)
    \<or> (\<exists>s''. s' = db_Close d (tx_Rollback d s''))
    \<or> (\<exists>s''. s' = db_Close d (snd (tx_Commit d s'')))"
  using assms
  unfolding sample_defs step_eqs
  by (auto split: sum.splits option.splits if_splits)

lemma txn_after_Abort: "txn (snd (mem_Abort w)) \<noteq> Some Active"
  by (simp add: mem_Abort_def split: option.splits tx_state.splits)

lemma txn_after_Commit: "txn (snd (mem_Commit w)) \<noteq> Some Active"
  by (simp add: mem_Commit_def tick_def split: option.splits tx_state.splits)

lemma txn_after_Open: "txn (snd (mem_Open drv name w)) = txn w"
  by (simp add: mem_Open_def tick_def split: option.splits)

lemma txn_after_failed_BeginTx:
  "fst (mem_BeginTx w) = Inl e \<Longrightarrow> txn (snd (mem_BeginTx w)) = txn w"
  by (simp add: mem_BeginTx_def tick_def split: option.splits tx_state.splits)

lemma never_left_Active:
  assumes "WriteWithTransactionUsingDml mem_driver name (fresh_world db fs, []) = (Some f, w', lg)"
  shows "txn w' \<noteq> Some Active"
  using final_state_shape [OF assms]
  by (auto simp: mem_driver_simps txn_after_Abort txn_after_Commit txn_after_Open
      txn_after_failed_BeginTx fresh_world_def)

text \<open>
  Claim C6. Whenever an error occurs while the transaction is open, during the reads,
  while the batch is built or when it is submitted (a call other than \<^verbatim>\<open>Commit\<close>
  fails, or the number of affected rows is not 2), the sample reports an error, calls
  \<^verbatim>\<open>Rollback\<close> exactly once, after the failure and as its last call on the
  transaction, before it returns (only the deferred \<^verbatim>\<open>Close\<close> follows), and never calls
  \<^verbatim>\<open>Commit\<close>. More generally, a run that reports an error after \<^verbatim>\<open>BeginTx\<close> succeeded
  ends with \<^verbatim>\<open>Rollback\<close> or with the failed \<^verbatim>\<open>Commit\<close> itself. Both hold for every
  collaborator. On the executor of the specification, the Transaction is therefore
  never Active after an error has been reported.
\<close>

theorem error_aborts_transaction:
  "(\<forall>(d :: ('s, 'r, 'e) driver) name s0 r s' lg.
      WriteWithTransactionUsingDml d name (s0, []) = (r, s', lg) \<and>
      (CBeginTx, Returned) \<in> set lg \<and>
      ((\<exists>c e. (c, Failed e) \<in> set lg \<and> c \<noteq> CCommit) \<or>
       (\<exists>n. (CRowsAffected, ReturnedInt n) \<in> set lg \<and> n \<noteq> 2)) \<longrightarrow>
        r \<noteq> None \<and> CCommit \<notin> fst ` set lg \<and>
        (\<exists>pre s''. lg = pre @ [(CRollback, Returned), (CClose, Returned)] \<and>
           CRollback \<notin> fst ` set pre \<and> s' = db_Close d (tx_Rollback d s''))) \<and>
   (\<forall>(d :: ('s, 'r, 'e) driver) name s0 f s' lg.
      WriteWithTransactionUsingDml d name (s0, []) = (Some f, s', lg) \<and>
      (CBeginTx, Returned) \<in> set lg \<longrightarrow>
        (\<exists>pre. lg = pre @ [(CRollback, Returned), (CClose, Returned)]) \<or>
        (\<exists>pre e. f = Propagated e \<and> lg = pre @ [(CCommit, Failed e), (CClose, Returned)])) \<and>
   (\<forall>name db fs f w' lg.
      WriteWithTransactionUsingDml mem_driver name (fresh_world db fs, []) = (Some f, w', lg) \<longrightarrow>
        txn w' \<noteq> Some Active)"
  (is "?explicit_abort \<and> ?terminal_call \<and> ?on_executor")
proof (intro conjI)
  show ?explicit_abort
  proof (intro allI impI)
    fix d :: "('s, 'r, 'e) driver" and name s0 r s' and lg :: "('r, 'e) trace"
    assume "WriteWithTransactionUsingDml d name (s0, []) = (r, s', lg) \<and>
      (CBeginTx, Returned) \<in> set lg \<and>
      ((\<exists>c e. (c, Failed e) \<in> set lg \<and> c \<noteq> CCommit) \<or>
       (\<exists>n. (CRowsAffected, ReturnedInt n) \<in> set lg \<and> n \<noteq> 2))"
    then have run: "WriteWithTransactionUsingDml d name (s0, []) = (r, s', lg)"
      and begun: "(CBeginTx, Returned) \<in> set lg"
      and failed: "(\<exists>c e. (c, Failed e) \<in> set lg \<and> c \<noteq> CCommit) \<or>
         (\<exists>n. (CRowsAffected, ReturnedInt n) \<in> set lg \<and> n \<noteq> 2)"
      by simp_all
    show "r \<noteq> None \<and> CCommit \<notin> fst ` set lg \<and>
        (\<exists>pre s''. lg = pre @ [(CRollback, Returned), (CClose, Returned)] \<and>
           CRollback \<notin> fst ` set pre \<and> s' = db_Close d (tx_Rollback d s''))"
      by (rule failure_rolls_back [OF run begun failed])
  qed
  show ?terminal_call
  proof (intro allI impI)
    fix d :: "('s, 'r, 'e) driver" and name s0 f s' and lg :: "('r, 'e) trace"
    assume "WriteWithTransactionUsingDml d name (s0, []) = (Some f, s', lg) \<and>
      (CBeginTx, Returned) \<in> set lg"
    then have run: "WriteWithTransactionUsingDml d name (s0, []) = (Some f, s', lg)"
      and begun: "(CBeginTx, Returned) \<in> set lg"
      by simp_all
    show "(\<exists>pre. lg = pre @ [(CRollback, Returned), (CClose, Returned)]) \<or>
        (\<exists>pre e. f = Propagated e \<and> lg = pre @ [(CCommit, Failed e), (CClose, Returned)])"
      by (rule error_ends_transaction [OF run begun])
  qed
  show ?on_executor
  proof (intro allI impI)
    fix name fs f w' and db :: table and lg :: "(nat list, error) trace"
    assume "WriteWithTransactionUsingDml mem_driver name (fresh_world db fs, []) = (Some f, w', lg)"
    then show "txn w' \<noteq> Some Active" by (rule never_left_Active)
  qed
qed

theorem error_aborts_transaction_witness:
  "\<exists>w' lg.
     WriteWithTransactionUsingDml mem_driver ''db''
       (fresh_world (albums 25000) (\<lambda>n. if n = 6 then Some Cancelled else None), []) =
       (Some (Propagated Cancelled), w', lg) \<and>
     (CBeginTx, Returned) \<in> set lg \<and> (update_of 2 2 5000, Failed Cancelled) \<in> set lg \<and>
     CCommit \<notin> fst ` set lg \<and>
     (\<exists>pre. lg = pre @ [(CRollback, Returned), (CClose, Returned)]) \<and>
     txn w' = Some Aborted \<and> store w' = albums 25000"
proof -
  obtain r w' and lg :: "(nat list, error) trace" where run:
    "WriteWithTransactionUsingDml mem_driver ''db''
       (fresh_world (albums 25000) (\<lambda>n. if n = 6 then Some Cancelled else None), []) = (r, w', lg)"
    by (metis prod_cases3)
  from run have facts:
    "r = Some (Propagated Cancelled)" "(CBeginTx, Returned) \<in> set lg"
    "(update_of 2 2 5000, Failed Cancelled) \<in> set lg"
    "txn w' = Some Aborted" "store w' = albums 25000"
    unfolding sample_defs update_of_def
    by (auto simp: do_defs mem_driver_simps mem_defs transfer_def albums_def)
  have failed: "(\<exists>c e. (c, Failed e) \<in> set lg \<and> c \<noteq> CCommit) \<or>
       (\<exists>n. (CRowsAffected, ReturnedInt n) \<in> set lg \<and> n \<noteq> 2)"
    using facts(3) by (intro disjI1 exI [of _ "update_of 2 2 5000"] exI [of _ Cancelled] conjI)
      (simp_all add: update_of_def)
  note explicit_abort =
    error_aborts_transaction [THEN conjunct1, THEN spec [of _ mem_driver],
      THEN spec [of _ "''db''"], THEN spec, THEN spec [of _ r], THEN spec [of _ w'],
      THEN spec [of _ lg], THEN mp, OF conjI, OF run, OF conjI, OF facts(2) failed]
  then have no_commit: "CCommit \<notin> fst ` set lg"
    and rolled_back: "\<exists>pre. lg = pre @ [(CRollback, Returned), (CClose, Returned)]"
    by blast+
  from run facts(1) have run':
    "WriteWithTransactionUsingDml mem_driver ''db''
       (fresh_world (albums 25000) (\<lambda>n. if n = 6 then Some Cancelled else None), []) =
       (Some (Propagated Cancelled), w', lg)"
    by simp
  with facts no_commit rolled_back show ?thesis
    by (intro exI [of _ w'] exI [of _ lg]) simp
qed


section \<open>Properties of the executor\<close>

subsection \<open>Batches\<close>

lemma run_statements_length:
  "run_statements ex sts k db = Inr (ns, db') \<Longrightarrow> length ns = length sts"
  by (induction sts arbitrary: k db ns) (auto split: option.splits sum.splits)

lemma run_statements_append:
  "run_statements ex (pre @ post) k db =
     (case run_statements ex pre k db of
        Inl j \<Rightarrow> Inl j
      | Inr (ns, db1) \<Rightarrow>
          (case run_statements ex post (k + length pre) db1 of
             Inl j \<Rightarrow> Inl j
           | Inr (ms, db2) \<Rightarrow> Inr (ns @ ms, db2)))"
  by (induction pre arbitrary: k db) (auto split: option.splits sum.splits)

lemma run_statements_failure:
  "run_statements ex sts k db = Inl j \<Longrightarrow>
     k \<le> j \<and> j < k + length sts \<and>
     (\<exists>ns dbj. run_statements ex (take (j - k) sts) k db = Inr (ns, dbj) \<and>
        ex (sts ! (j - k)) dbj = None)"
proof (induction sts arbitrary: k db)
  case Nil
  then show ?case by simp
next
  case (Cons st sts)
  show ?case
  proof (cases "ex st db")
    case None
    with Cons.prems show ?thesis by simp
  next
    case (Some a)
    obtain n db1 where a: "a = (n, db1)" by (cases a)
    from Cons.prems Some a have rec: "run_statements ex sts (Suc k) db1 = Inl j"
      by (simp split: sum.splits prod.splits)
    from Cons.IH [OF rec] obtain ns dbj where
      b: "Suc k \<le> j" "j < Suc k + length sts"
      and r: "run_statements ex (take (j - Suc k) sts) (Suc k) db1 = Inr (ns, dbj)"
      and f: "ex (sts ! (j - Suc k)) dbj = None"
      by blast
    from b have jk: "j - k = Suc (j - Suc k)" by simp
    show ?thesis
      using b r f Some a by (simp add: jk)
  qed
qed

lemma run_statements_success:
  assumes "run_statements ex sts k db = Inr (ns, db')" and "i < length sts"
  shows "\<exists>dbi dbi'. run_statements ex (take i sts) k db = Inr (take i ns, dbi) \<and>
           ex (sts ! i) dbi = Some (ns ! i, dbi')"
proof -
  have split: "sts = take i sts @ sts ! i # drop (Suc i) sts"
    using assms(2) by (simp add: id_take_nth_drop)
  have len: "length (take i sts) = i" using assms(2) by simp
  from assms(1) have "run_statements ex (take i sts @ sts ! i # drop (Suc i) sts) k db = Inr (ns, db')"
    using split by simp
  then obtain a dbi n dbi' c where
    pre: "run_statements ex (take i sts) k db = Inr (a, dbi)"
    and st: "ex (sts ! i) dbi = Some (n, dbi')"
    and ns: "ns = a @ n # c"
    by (auto simp: run_statements_append split: sum.splits option.splits)
  from run_statements_length [OF pre] len have la: "length a = i" by simp
  from la ns have "take i ns = a" "ns ! i = n" by (auto simp: nth_append)
  with pre st show ?thesis by simp
qed

lemma executeBatch_success:
  assumes "executeBatch ex sts db = (Inr ns, db')"
  shows "length ns = length sts \<and>
     (\<forall>i<length sts. \<exists>dbi dbi'.
        executeBatch ex (take i sts) db = (Inr (take i ns), dbi) \<and>
        ex (sts ! i) dbi = Some (ns ! i, dbi'))"
proof -
  from assms have run: "run_statements ex sts 0 db = Inr (ns, db')"
    by (auto simp: executeBatch_def split: sum.splits)
  show ?thesis
  proof (intro conjI allI impI)
    show "length ns = length sts" by (rule run_statements_length [OF run])
  next
    fix i assume "i < length sts"
    from run_statements_success [OF run this] obtain dbi dbi' where
      "run_statements ex (take i sts) 0 db = Inr (take i ns, dbi)"
      and "ex (sts ! i) dbi = Some (ns ! i, dbi')"
      by blast
    then show "\<exists>dbi dbi'.
        executeBatch ex (take i sts) db = (Inr (take i ns), dbi) \<and>
        ex (sts ! i) dbi = Some (ns ! i, dbi')"
      by (auto simp: executeBatch_def)
  qed
qed

lemma executeBatch_failure:
  assumes "executeBatch ex sts db = (Inl e, db')"
  shows "db' = db \<and>
     (\<exists>k<length sts. e = ExecutionFailed k \<and>
        (\<exists>ns dbk. executeBatch ex (take k sts) db = (Inr ns, dbk) \<and> ex (sts ! k) dbk = None))"
proof -
  from assms obtain k where run: "run_statements ex sts 0 db = Inl k"
    and e: "e = ExecutionFailed k" and db: "db' = db"
    by (auto simp: executeBatch_def split: sum.splits)
  from run_statements_failure [OF run] obtain ns dbk where
    "k < length sts" and "run_statements ex (take k sts) 0 db = Inr (ns, dbk)"
    and "ex (sts ! k) dbk = None"
    by auto
  with e db show ?thesis by (auto simp: executeBatch_def)
qed

lemma executeBatch_total:
  "(\<exists>ns db'. executeBatch ex sts db = (Inr ns, db')) \<or>
   (\<exists>k. executeBatch ex sts db = (Inl (ExecutionFailed k), db))"
  by (auto simp: executeBatch_def split: sum.splits)

text \<open>
  Claim C2. A Batch of N statements that is submitted and fully succeeds returns
  exactly N row counts, one per statement and in submission order: the count at index
  \<open>i\<close> is what statement \<open>i\<close> affected on the state that the statements before it
  left. If a statement fails, the batch returns one error that names the index \<open>k\<close>
  of the first failing statement (the statements before \<open>k\<close> all succeeded, and
  statement \<open>k\<close> fails on the state they left), it returns no row counts, and the
  database state is the one the batch was given: nothing of the batch is applied.
  Every batch ends in one of these two ways.
\<close>

theorem batch_all_or_nothing:
  "(\<forall>ns db'. executeBatch ex sts db = (Inr ns, db') \<longrightarrow>
      length ns = length sts \<and>
      (\<forall>i<length sts. \<exists>dbi dbi'.
         executeBatch ex (take i sts) db = (Inr (take i ns), dbi) \<and>
         ex (sts ! i) dbi = Some (ns ! i, dbi'))) \<and>
   (\<forall>e db'. executeBatch ex sts db = (Inl e, db') \<longrightarrow>
      db' = db \<and>
      (\<exists>k<length sts. e = ExecutionFailed k \<and>
         (\<exists>ns dbk. executeBatch ex (take k sts) db = (Inr ns, dbk) \<and> ex (sts ! k) dbk = None))) \<and>
   ((\<exists>ns db'. executeBatch ex sts db = (Inr ns, db')) \<or>
    (\<exists>k. executeBatch ex sts db = (Inl (ExecutionFailed k), db)))"
  (is "?success \<and> ?failure \<and> ?total")
proof (intro conjI)
  show ?success by (intro allI impI) (erule executeBatch_success)
  show ?failure by (intro allI impI) (erule executeBatch_failure)
  show ?total by (rule executeBatch_total)
qed

theorem batch_all_or_nothing_witness:
  "fst (executeBatch exec_statement
          [(updateSql, [(''singerId'', 1), (''albumId'', 1), (''budget'', 7)]),
           (updateSql, [(''singerId'', 9), (''albumId'', 9), (''budget'', 7)]),
           (updateSql, [(''singerId'', 2), (''albumId'', 2), (''budget'', 8)])]
          (albums 25000)) = Inr [1, 0, 1] \<and>
   executeBatch exec_statement
     [(updateSql, [(''singerId'', 1), (''albumId'', 1), (''budget'', 7)]),
      (updateSql, [(''singerId'', 2), (''albumId'', 2)]),
      (updateSql, [(''singerId'', 2), (''albumId'', 2), (''budget'', 8)])]
     (albums 25000) = (Inl (ExecutionFailed 1), albums 25000) \<and>
   (\<exists>k<3. ExecutionFailed 1 = ExecutionFailed k \<and>
      (\<exists>ns dbk.
         executeBatch exec_statement
           (take k [(updateSql, [(''singerId'', 1), (''albumId'', 1), (''budget'', 7)]),
                    (updateSql, [(''singerId'', 2), (''albumId'', 2)]),
                    (updateSql, [(''singerId'', 2), (''albumId'', 2), (''budget'', 8)])])
           (albums 25000) = (Inr ns, dbk) \<and>
         exec_statement
           ([(updateSql, [(''singerId'', 1), (''albumId'', 1), (''budget'', 7)]),
             (updateSql, [(''singerId'', 2), (''albumId'', 2)]),
             (updateSql, [(''singerId'', 2), (''albumId'', 2), (''budget'', 8)])] ! k) dbk = None))"
proof -
  have ok: "fst (executeBatch exec_statement
          [(updateSql, [(''singerId'', 1), (''albumId'', 1), (''budget'', 7)]),
           (updateSql, [(''singerId'', 9), (''albumId'', 9), (''budget'', 7)]),
           (updateSql, [(''singerId'', 2), (''albumId'', 2), (''budget'', 8)])]
          (albums 25000)) = Inr [1, 0, 1]"
    by (simp add: executeBatch_def exec_statement_def albums_def)
  have failed: "executeBatch exec_statement
     [(updateSql, [(''singerId'', 1), (''albumId'', 1), (''budget'', 7)]),
      (updateSql, [(''singerId'', 2), (''albumId'', 2)]),
      (updateSql, [(''singerId'', 2), (''albumId'', 2), (''budget'', 8)])]
     (albums 25000) = (Inl (ExecutionFailed 1), albums 25000)"
    by (simp add: executeBatch_def exec_statement_def albums_def)
  note batch_all_or_nothing [THEN conjunct2, THEN conjunct1, THEN spec, THEN spec, THEN mp,
      OF failed, THEN conjunct2]
  then have "\<exists>k<3. ExecutionFailed 1 = ExecutionFailed k \<and>
      (\<exists>ns dbk.
         executeBatch exec_statement
           (take k [(updateSql, [(''singerId'', 1), (''albumId'', 1), (''budget'', 7)]),
                    (updateSql, [(''singerId'', 2), (''albumId'', 2)]),
                    (updateSql, [(''singerId'', 2), (''albumId'', 2), (''budget'', 8)])])
           (albums 25000) = (Inr ns, dbk) \<and>
         exec_statement
           ([(updateSql, [(''singerId'', 1), (''albumId'', 1), (''budget'', 7)]),
             (updateSql, [(''singerId'', 2), (''albumId'', 2)]),
             (updateSql, [(''singerId'', 2), (''albumId'', 2), (''budget'', 8)])] ! k) dbk = None)"
    by simp
  with ok failed show ?thesis by (intro conjI)
qed

subsection \<open>The Transaction state machine\<close>

lemma tx_apply_terminal:
  "terminal w \<Longrightarrow> tx_apply x w = (Some AlreadyTerminal, w)"
  by (cases x)
    (auto simp: terminal_def mem_QueryRow_def mem_Exec_def mem_Abort_def mem_Commit_def)

lemma tx_run_terminal:
  "terminal w \<Longrightarrow> tx_run xs w = (replicate (length xs) (Some AlreadyTerminal), w)"
  by (induction xs) (auto simp: tx_apply_terminal)

lemma terminal_transitions_terminal:
  "terminal w \<Longrightarrow> terminal_transitions xs w = 0"
  by (induction xs) (auto simp: tx_apply_terminal terminal_def)

lemma tx_apply_Active:
  "txn w = Some Active \<Longrightarrow>
     txn (snd (tx_apply x w)) = Some Active \<or> terminal (snd (tx_apply x w))"
  by (cases x)
    (auto simp: terminal_def mem_QueryRow_def mem_Exec_def mem_Abort_def mem_Commit_def tick_def
      split: option.splits prod.splits sum.splits)

lemma snd_tx_run_Cons: "snd (tx_run (x # xs) w) = snd (tx_run xs (snd (tx_apply x w)))"
  by (simp split: prod.splits)

lemma tx_run_append:
  "tx_run (xs @ ys) w =
     (fst (tx_run xs w) @ fst (tx_run ys (snd (tx_run xs w))), snd (tx_run ys (snd (tx_run xs w))))"
  by (induction xs arbitrary: w) (auto split: prod.splits)

lemma terminal_transitions_Active:
  "txn w = Some Active \<Longrightarrow>
     terminal_transitions xs w \<le> 1 \<and>
     (terminal (snd (tx_run xs w)) \<longleftrightarrow> terminal_transitions xs w = 1)"
proof (induction xs arbitrary: w)
  case Nil
  then show ?case by (simp add: terminal_def)
next
  case (Cons x xs)
  from tx_apply_Active [OF Cons.prems, of x] show ?case
  proof
    assume a: "txn (snd (tx_apply x w)) = Some Active"
    then have "\<not> terminal (snd (tx_apply x w))" by (simp add: terminal_def)
    with Cons.IH [OF a] show ?thesis by (simp add: snd_tx_run_Cons del: tx_run.simps)
  next
    assume t: "terminal (snd (tx_apply x w))"
    then show ?thesis
      using Cons.prems
      by (simp add: terminal_transitions_terminal tx_run_terminal snd_tx_run_Cons del: tx_run.simps)
  qed
qed

lemma one_terminal_call:
  assumes "WriteWithTransactionUsingDml d name (s0, []) = (r, s', lg)"
    and "(CBeginTx, Returned) \<in> set lg"
  shows "length (filter is_terminal_call (map fst lg)) = 1 \<and>
     set (tl (dropWhile (\<lambda>c. \<not> is_terminal_call c) (map fst lg))) \<subseteq>
       {CPrintln transferred_message, CClose}"
  using assms
  unfolding sample_defs step_eqs
  by (auto split: sum.splits option.splits if_splits simp: is_terminal_call_def)

text \<open>
  Claim C9. A Transaction makes exactly one terminal transition (\<^verbatim>\<open>Commit\<close> or \<^verbatim>\<open>Abort\<close>)
  over its lifetime, every operation attempted after it fails at once with the
  "already terminal" error, and nothing leads out of Committed or Aborted. On the
  Transaction of the specification: an operation on a terminal Transaction returns
  \<open>AlreadyTerminal\<close> and changes nothing; a sequence of operations on an Active
  Transaction makes at most one terminal transition, and exactly one when it ends in a
  terminal state (a Transaction is released on reaching one, section 3); whatever
  follows gets \<open>AlreadyTerminal\<close>, the state staying as it is. On the sample, with
  any collaborator: once \<^verbatim>\<open>BeginTx\<close> has succeeded, exactly one of \<^verbatim>\<open>Rollback\<close> and
  \<^verbatim>\<open>Commit\<close> is called, once, and after it only \<^verbatim>\<open>Fprintln\<close> and \<^verbatim>\<open>Close\<close>.
\<close>

theorem one_terminal_transition:
  "(\<forall>x w. terminal w \<longrightarrow> tx_apply x w = (Some AlreadyTerminal, w)) \<and>
   (\<forall>xs w. txn w = Some Active \<longrightarrow>
      terminal_transitions xs w \<le> 1 \<and>
      (terminal (snd (tx_run xs w)) \<longleftrightarrow> terminal_transitions xs w = 1)) \<and>
   (\<forall>xs ys w. terminal (snd (tx_run xs w)) \<longrightarrow>
      tx_run (xs @ ys) w =
        (fst (tx_run xs w) @ replicate (length ys) (Some AlreadyTerminal), snd (tx_run xs w))) \<and>
   (\<forall>(d :: ('s, 'r, 'e) driver) name s0 r s' lg.
      WriteWithTransactionUsingDml d name (s0, []) = (r, s', lg) \<and>
      (CBeginTx, Returned) \<in> set lg \<longrightarrow>
        length (filter is_terminal_call (map fst lg)) = 1 \<and>
        set (tl (dropWhile (\<lambda>c. \<not> is_terminal_call c) (map fst lg))) \<subseteq>
          {CPrintln transferred_message, CClose})"
  (is "?rejected \<and> ?once \<and> ?afterwards \<and> ?sample")
proof (intro conjI)
  show ?rejected by (simp add: tx_apply_terminal)
  show ?once by (intro allI impI) (erule terminal_transitions_Active)
  show ?afterwards by (simp add: tx_run_append tx_run_terminal)
  show ?sample
  proof (intro allI impI)
    fix d :: "('s, 'r, 'e) driver" and name s0 r s' and lg :: "('r, 'e) trace"
    assume "WriteWithTransactionUsingDml d name (s0, []) = (r, s', lg) \<and>
      (CBeginTx, Returned) \<in> set lg"
    then have run: "WriteWithTransactionUsingDml d name (s0, []) = (r, s', lg)"
      and begun: "(CBeginTx, Returned) \<in> set lg"
      by simp_all
    show "length (filter is_terminal_call (map fst lg)) = 1 \<and>
        set (tl (dropWhile (\<lambda>c. \<not> is_terminal_call c) (map fst lg))) \<subseteq>
          {CPrintln transferred_message, CClose}"
      by (rule one_terminal_call [OF run begun])
  qed
qed

theorem one_terminal_transition_witness:
  "txn ((fresh_world (albums 25000) (\<lambda>_. None))\<lparr>txn := Some Active\<rparr>) = Some Active \<and>
   terminal (snd (tx_run [Read selectSql [(''singerId'', 2), (''albumId'', 2)], Commit]
                    ((fresh_world (albums 25000) (\<lambda>_. None))\<lparr>txn := Some Active\<rparr>))) \<and>
   terminal_transitions [Read selectSql [(''singerId'', 2), (''albumId'', 2)], Commit]
     ((fresh_world (albums 25000) (\<lambda>_. None))\<lparr>txn := Some Active\<rparr>) = 1 \<and>
   fst (tx_run ([Read selectSql [(''singerId'', 2), (''albumId'', 2)], Commit] @
                [Read selectSql [(''singerId'', 2), (''albumId'', 2)],
                 Submit ''start batch dml'' [], Abort, Commit])
          ((fresh_world (albums 25000) (\<lambda>_. None))\<lparr>txn := Some Active\<rparr>)) =
     [None, None, Some AlreadyTerminal, Some AlreadyTerminal, Some AlreadyTerminal,
      Some AlreadyTerminal]"
proof -
  let ?w = "(fresh_world (albums 25000) (\<lambda>_. None))\<lparr>txn := Some Active\<rparr>"
  let ?xs = "[Read selectSql [(''singerId'', 2), (''albumId'', 2)], Commit]"
  let ?ys = "[Read selectSql [(''singerId'', 2), (''albumId'', 2)],
                 Submit ''start batch dml'' [], Abort, Commit]"
  have active: "txn ?w = Some Active" by simp
  have run: "tx_run ?xs ?w =
      ([None, None],
       \<lparr>store = albums 25000, txn = Some Committed, working = albums 25000, batch = None,
        written = [], faults = (\<lambda>_. None), calls = 2\<rparr>)"
    by (simp add: mem_defs albums_def)
  then have reached: "terminal (snd (tx_run ?xs ?w))" by (simp add: terminal_def)
  note once = one_terminal_transition [THEN conjunct2, THEN conjunct1, THEN spec [of _ ?xs],
      THEN spec [of _ ?w], THEN mp, OF active, THEN conjunct2, THEN iffD1, OF reached]
  note afterwards = one_terminal_transition [THEN conjunct2, THEN conjunct2, THEN conjunct1,
      THEN spec [of _ ?xs], THEN spec [of _ ?ys], THEN spec [of _ ?w], THEN mp, OF reached]
  from afterwards run have "fst (tx_run (?xs @ ?ys) ?w) =
     [None, None, Some AlreadyTerminal, Some AlreadyTerminal, Some AlreadyTerminal,
      Some AlreadyTerminal]"
    by (simp del: tx_run.simps append.simps add: numeral_eq_Suc)
  with active reached once show ?thesis by (intro conjI)
qed


section \<open>Properties of the value codec\<close>

lemma dense_map_Some: "dense (map Some ps) = Some ps"
  by (induction ps) auto

lemma dense_None_iff: "dense xs = None \<longleftrightarrow> None \<in> set xs"
proof (induction xs)
  case Nil
  then show ?case by simp
next
  case (Cons x xs)
  then show ?case by (cases x) (auto split: option.splits)
qed

lemma encode_well_typed:
  "native_ok v \<Longrightarrow> \<exists>w. encode v (native_type v) = Inr w \<and> val_type w = native_type v"
proof (cases v)
  case (Plain p)
  then show ?thesis by simp
next
  case (Nullable st x)
  assume "native_ok v"
  with Nullable show ?thesis by (cases x) (auto simp: elems_typed_def)
next
  case (DenseArray st xs)
  assume "native_ok v"
  with DenseArray show ?thesis by (cases xs) auto
next
  case (NullableArray st xs)
  assume "native_ok v"
  with NullableArray show ?thesis by (cases xs) auto
qed

lemma decode_encode:
  assumes "encode v t = Inr w"
    and "\<forall>st xs. v = DenseArray st xs \<longrightarrow> has_dense_native st"
  shows "decode w (native_shape v) = Inr v"
proof (cases v)
  case (Plain p)
  with assms show ?thesis by (auto split: if_splits)
next
  case (Nullable st x)
  with assms show ?thesis by (cases x) (auto simp: elems_typed_def split: if_splits)
next
  case (DenseArray st xs)
  with assms show ?thesis by (cases xs) (auto simp: dense_map_Some split: if_splits)
next
  case (NullableArray st xs)
  with assms show ?thesis by (cases xs) (auto split: if_splits)
qed

lemma decode_encode_no_dense:
  assumes "encode (DenseArray st xs) t = Inr w" and "\<not> has_dense_native st"
  shows "decode w (DenseArrayShape st) = Inl TypeMismatch \<and>
         decode w (shapeOf t) = Inr (NullableArray st (map_option (map Some) xs))"
  using assms by (cases xs) (auto split: if_splits)

lemma shapeOf_native_shape:
  assumes "encode v t = Inr w" and "native_shape v = shapeOf t"
  shows "\<forall>st xs. v = DenseArray st xs \<longrightarrow> has_dense_native st"
  using assms by (cases v) (auto split: if_splits)

text \<open>
  Claim C1, as the code has it. The claim says that every native value comes back
  from \<open>decode (encode v t) (shapeOf t)\<close> as itself. The sample passes a dense
  \<^verbatim>\<open>[]big.Rat\<close> for the \<^verbatim>\<open>ARRAY<NUMERIC>\<close> column (line 150) and reads the column into
  \<^verbatim>\<open>[]spanner.NullNumeric\<close> (lines 198 and 252), and its comments say why: the same
  types serve for getting and setting "except for some ARRAY columns", arrays of
  NUMERIC and JSON "must always use" the nullable element type. So that one kind of
  value does not come back in the shape it was given in. What holds: every native value
  that \<open>encode\<close> accepts at the declared type \<open>t\<close>, other than a dense native array
  of NUMERIC or JSON, decodes in the shape it is held in to exactly itself, nulls
  included at every level (a null scalar, a null array, an array with null elements);
  this is \<open>decode (encode v t) (shapeOf t)\<close> whenever the value is held in the shape
  \<open>shapeOf t\<close>. A dense native array of NUMERIC or JSON is encoded, is refused in
  its own shape, and at \<open>shapeOf t\<close> comes back as the array of nullable elements
  with the same elements. Every well-formed native value is accepted at its own type.
\<close>

theorem round_trip:
  "(native_ok v \<and> t = native_type v \<longrightarrow> (\<exists>w. encode v t = Inr w \<and> val_type w = t)) \<and>
   (\<forall>w. encode v t = Inr w \<and> (\<forall>st xs. v = DenseArray st xs \<longrightarrow> has_dense_native st) \<longrightarrow>
      decode w (native_shape v) = Inr v) \<and>
   (\<forall>w. encode v t = Inr w \<and> native_shape v = shapeOf t \<longrightarrow> decode w (shapeOf t) = Inr v) \<and>
   (\<forall>w st xs. encode v t = Inr w \<and> v = DenseArray st xs \<and> \<not> has_dense_native st \<longrightarrow>
      decode w (native_shape v) = Inl TypeMismatch \<and>
      decode w (shapeOf t) = Inr (NullableArray st (map_option (map Some) xs)))"
  (is "?accepted \<and> ?own_shape \<and> ?declared_shape \<and> ?no_dense")
proof (intro conjI)
  show ?accepted using encode_well_typed [of v] by auto
  show ?own_shape using decode_encode [of v t] by blast
  show ?declared_shape
  proof (intro allI impI)
    fix w assume a: "encode v t = Inr w \<and> native_shape v = shapeOf t"
    then have "\<forall>st xs. v = DenseArray st xs \<longrightarrow> has_dense_native st"
      using shapeOf_native_shape [of v t w] by blast
    with a decode_encode [of v t w] show "decode w (shapeOf t) = Inr v" by auto
  qed
  show ?no_dense using decode_encode_no_dense by auto
qed

theorem round_trip_witness:
  "encode (NullableArray TBool (Some [Some (PBool True), None])) (Array TBool) =
     Inr (VArray TBool [Some (PBool True), None]) \<and>
   decode (VArray TBool [Some (PBool True), None])
     (native_shape (NullableArray TBool (Some [Some (PBool True), None]))) =
     Inr (NullableArray TBool (Some [Some (PBool True), None])) \<and>
   encode (DenseArray TInt64 (Some [PInt64 1, PInt64 2])) (Array TInt64) =
     Inr (VArray TInt64 [Some (PInt64 1), Some (PInt64 2)]) \<and>
   native_shape (DenseArray TInt64 (Some [PInt64 1, PInt64 2])) = shapeOf (Array TInt64) \<and>
   decode (VArray TInt64 [Some (PInt64 1), Some (PInt64 2)]) (shapeOf (Array TInt64)) =
     Inr (DenseArray TInt64 (Some [PInt64 1, PInt64 2])) \<and>
   encode (DenseArray TNumeric (Some [PNumeric (1 / 2)])) (Array TNumeric) =
     Inr (VArray TNumeric [Some (PNumeric (1 / 2))]) \<and>
   \<not> has_dense_native TNumeric \<and>
   decode (VArray TNumeric [Some (PNumeric (1 / 2))]) (shapeOf (Array TNumeric)) =
     Inr (NullableArray TNumeric (Some [Some (PNumeric (1 / 2))]))"
proof -
  have e1: "encode (NullableArray TBool (Some [Some (PBool True), None])) (Array TBool) =
     Inr (VArray TBool [Some (PBool True), None])"
    by (simp add: elems_typed_def)
  have h1: "\<forall>st xs. NullableArray TBool (Some [Some (PBool True), None]) = DenseArray st xs \<longrightarrow>
      has_dense_native st"
    by simp
  note d1 = round_trip [THEN conjunct2, THEN conjunct1, THEN spec, THEN mp, OF conjI, OF e1 h1]
  have e2: "encode (DenseArray TInt64 (Some [PInt64 1, PInt64 2])) (Array TInt64) =
     Inr (VArray TInt64 [Some (PInt64 1), Some (PInt64 2)])"
    by (simp add: elems_typed_def)
  have h2: "native_shape (DenseArray TInt64 (Some [PInt64 1, PInt64 2])) = shapeOf (Array TInt64)"
    by (simp add: has_dense_native_def)
  note d2 = round_trip [THEN conjunct2, THEN conjunct2, THEN conjunct1, THEN spec, THEN mp,
      OF conjI, OF e2 h2]
  have e3: "encode (DenseArray TNumeric (Some [PNumeric (1 / 2)])) (Array TNumeric) =
     Inr (VArray TNumeric [Some (PNumeric (1 / 2))])"
    by (simp add: elems_typed_def)
  have h3: "\<not> has_dense_native TNumeric" by (simp add: has_dense_native_def)
  note d3 = round_trip [THEN conjunct2, THEN conjunct2, THEN conjunct2, THEN spec, THEN spec,
      THEN spec, THEN mp, OF conjI, OF e3, OF conjI, OF refl h3, THEN conjunct2]
  from d3 have d3': "decode (VArray TNumeric [Some (PNumeric (1 / 2))]) (shapeOf (Array TNumeric)) =
     Inr (NullableArray TNumeric (Some [Some (PNumeric (1 / 2))]))"
    by simp
  from e1 d1 e2 h2 d2 e3 h3 d3' show ?thesis by (intro conjI)
qed

text \<open>
  The input at which claim C1 fails as it is stated: the dense \<^verbatim>\<open>[]big.Rat\<close> of line
  150, with the elements 1/2 and 1/3. It is encoded; at \<open>shapeOf\<close> of its declared
  type it is decoded to another native value, the array of nullable elements; and in
  its own shape the decoding is refused.
\<close>

theorem round_trip_counterexample:
  "encode (DenseArray TNumeric (Some [PNumeric (1 / 2), PNumeric (1 / 3)])) (Array TNumeric) =
     Inr (VArray TNumeric [Some (PNumeric (1 / 2)), Some (PNumeric (1 / 3))]) \<and>
   decode (VArray TNumeric [Some (PNumeric (1 / 2)), Some (PNumeric (1 / 3))])
     (shapeOf (Array TNumeric)) =
     Inr (NullableArray TNumeric (Some [Some (PNumeric (1 / 2)), Some (PNumeric (1 / 3))])) \<and>
   decode (VArray TNumeric [Some (PNumeric (1 / 2)), Some (PNumeric (1 / 3))])
     (shapeOf (Array TNumeric)) \<noteq>
     Inr (DenseArray TNumeric (Some [PNumeric (1 / 2), PNumeric (1 / 3)])) \<and>
   decode (VArray TNumeric [Some (PNumeric (1 / 2)), Some (PNumeric (1 / 3))])
     (native_shape (DenseArray TNumeric (Some [PNumeric (1 / 2), PNumeric (1 / 3)]))) =
     Inl TypeMismatch"
  by (simp add: elems_typed_def has_dense_native_def)

text \<open>
  Claim C3. For every array with at least one null element: asking for the dense
  native shape fails with TypeMismatch, whatever element type is asked for, and asking
  for the shape with nullable elements succeeds and gives back the same elements, each
  null where it was null.
\<close>

theorem null_element_needs_nullable_shape:
  assumes "None \<in> set xs" and "elems_typed st xs"
  shows "encode (NullableArray st (Some xs)) (Array st) = Inr (VArray st xs) \<and>
     (\<forall>st'. decode (VArray st xs) (DenseArrayShape st') = Inl TypeMismatch) \<and>
     decode (VArray st xs) (NullableArrayShape st) = Inr (NullableArray st (Some xs))"
proof -
  from assms(1) have "dense xs = None" by (simp add: dense_None_iff)
  with assms(2) show ?thesis by simp
qed

theorem null_element_needs_nullable_shape_witness:
  "None \<in> set [None, None :: payload option] \<and> elems_typed TBool [None, None] \<and>
   encode (NullableArray TBool (Some [None, None])) (Array TBool) = Inr (VArray TBool [None, None]) \<and>
   decode (VArray TBool [None, None]) (DenseArrayShape TBool) = Inl TypeMismatch \<and>
   decode (VArray TBool [None, None]) (NullableArrayShape TBool) =
     Inr (NullableArray TBool (Some [None, None]))"
proof -
  have h: "None \<in> set [None, None :: payload option]" "elems_typed TBool [None, None]"
    by (simp_all add: elems_typed_def)
  from null_element_needs_nullable_shape [OF h] h show ?thesis by simp
qed

text \<open>
  Claim C4. For an array column of NUMERIC or JSON type a request for the dense native
  shape is always refused, whatever the stored value is, with null elements or
  without; a value of such a column decodes in one shape only, the array of nullable
  elements, and in that shape every well-typed value of the column decodes.
\<close>

theorem numeric_and_json_arrays_nullable_only:
  assumes "st = TNumeric \<or> st = TJson"
  shows "(\<forall>w. decode w (DenseArrayShape st) = Inl TypeMismatch) \<and>
     (\<forall>w s v. val_type w = Array st \<and> decode w s = Inr v \<longrightarrow> s = NullableArrayShape st) \<and>
     (\<forall>xs. elems_typed st xs \<longrightarrow>
        decode (VArray st xs) (NullableArrayShape st) = Inr (NullableArray st (Some xs))) \<and>
     decode (VNull (Array st)) (NullableArrayShape st) = Inr (NullableArray st None) \<and>
     shapeOf (Array st) = NullableArrayShape st"
proof (intro conjI allI impI)
  from assms have nd: "\<not> has_dense_native st" by (auto simp: has_dense_native_def)
  show "decode w (DenseArrayShape st) = Inl TypeMismatch" for w
    using nd by (cases w) simp_all
  show "s = NullableArrayShape st" if "val_type w = Array st \<and> decode w s = Inr v" for w s v
    using that nd by (cases w; cases s) (auto split: if_splits option.splits)
  show "decode (VArray st xs) (NullableArrayShape st) = Inr (NullableArray st (Some xs))"
    if "elems_typed st xs" for xs
    using that by simp
  show "decode (VNull (Array st)) (NullableArrayShape st) = Inr (NullableArray st None)"
    by simp
  show "shapeOf (Array st) = NullableArrayShape st" using nd by simp
qed

theorem numeric_and_json_arrays_nullable_only_witness:
  "(TNumeric = TNumeric \<or> TNumeric = TJson) \<and>
   decode (VArray TNumeric [Some (PNumeric (1 / 2)), Some (PNumeric (1 / 3))])
     (DenseArrayShape TNumeric) = Inl TypeMismatch \<and>
   elems_typed TNumeric [Some (PNumeric (1 / 2)), Some (PNumeric (1 / 3))] \<and>
   decode (VArray TNumeric [Some (PNumeric (1 / 2)), Some (PNumeric (1 / 3))])
     (NullableArrayShape TNumeric) =
     Inr (NullableArray TNumeric (Some [Some (PNumeric (1 / 2)), Some (PNumeric (1 / 3))])) \<and>
   shapeOf (Array TNumeric) = NullableArrayShape TNumeric"
proof -
  have h: "TNumeric = TNumeric \<or> TNumeric = TJson" by simp
  have ok: "elems_typed TNumeric [Some (PNumeric (1 / 2)), Some (PNumeric (1 / 3))]"
    by (simp add: elems_typed_def)
  note all = numeric_and_json_arrays_nullable_only [OF h]
  from all have "decode (VArray TNumeric [Some (PNumeric (1 / 2)), Some (PNumeric (1 / 3))])
     (DenseArrayShape TNumeric) = Inl TypeMismatch"
    by blast
  moreover from all ok have
    "decode (VArray TNumeric [Some (PNumeric (1 / 2)), Some (PNumeric (1 / 3))])
     (NullableArrayShape TNumeric) =
     Inr (NullableArray TNumeric (Some [Some (PNumeric (1 / 2)), Some (PNumeric (1 / 3))]))"
    by blast
  moreover from all have "shapeOf (Array TNumeric) = NullableArrayShape TNumeric" by blast
  ultimately show ?thesis using h ok by (intro conjI)
qed


end
